theory Spec2Isabelle
  imports Complex_Main
begin

section \<open>EllipsoidGeometry: a cube tessellation projected onto an ellipsoid\<close>

text \<open>
  A shallow embedding of \<^verbatim>\<open>Source/Core/EllipsoidGeometry.js\<close>. The constructor builds a
  cube-shaped position buffer and a triangle index buffer with the two private helpers
  \<^verbatim>\<open>addEdgePositions\<close> and \<^verbatim>\<open>addFaceTriangles\<close>, then fills the requested vertex
  attributes.

  Indices and lengths are natural numbers and the partition count is an integer.
  Coordinates are real numbers and the arithmetic on them is exact, which leaves the
  rounding of double precision out; \<^verbatim>\<open>addEdgePositions\<close> is given a second time with
  every operation rounded, for what depends on the rounding.
\<close>

subsection \<open>JavaScript arrays\<close>

text \<open>
  An array of the source is a list of optional values: \<open>None\<close> is \<^verbatim>\<open>undefined\<close>, which is
  what a hole and a read past the end both evaluate to. Writing at an index at or past the
  end extends the array, leaving holes in between; writing at a negative index sets a
  property that is not an element, so the elements are unchanged.
\<close>

type_synonym 'a jsarray = "'a option list"

definition js_get :: "'a jsarray \<Rightarrow> int \<Rightarrow> 'a option" where
  "js_get a i = (if 0 \<le> i \<and> nat i < length a then a ! nat i else None)"

definition js_set :: "'a jsarray \<Rightarrow> int \<Rightarrow> 'a option \<Rightarrow> 'a jsarray" where
  "js_set a i v =
     (if i < 0 then a
      else if nat i < length a then a[nat i := v]
      else a @ replicate (nat i - length a) None @ [v])"

subsection \<open>Cartesian3\<close>

record Cartesian3 =
  x :: real
  y :: real
  z :: real

text \<open>
  Modelled from the spec: the vector primitives of \<^verbatim>\<open>Cartesian3.js\<close>, which is not part of
  the sources at hand (add, subtract, scale by a scalar, component-wise multiply, normalize
  to unit length, with the real square root). In \<open>a.subtract(b)\<close> the receiver is the left
  operand.
\<close>

definition add :: "Cartesian3 \<Rightarrow> Cartesian3 \<Rightarrow> Cartesian3" where
  "add l r = \<lparr>x = x l + x r, y = y l + y r, z = z l + z r\<rparr>"

definition subtract :: "Cartesian3 \<Rightarrow> Cartesian3 \<Rightarrow> Cartesian3" where
  "subtract l r = \<lparr>x = x l - x r, y = y l - y r, z = z l - z r\<rparr>"

definition multiplyByScalar :: "Cartesian3 \<Rightarrow> real \<Rightarrow> Cartesian3" where
  "multiplyByScalar c s = \<lparr>x = x c * s, y = y c * s, z = z c * s\<rparr>"

definition multiplyComponents :: "Cartesian3 \<Rightarrow> Cartesian3 \<Rightarrow> Cartesian3" where
  "multiplyComponents l r = \<lparr>x = x l * x r, y = y l * y r, z = z l * z r\<rparr>"

definition magnitude :: "Cartesian3 \<Rightarrow> real" where
  "magnitude c = sqrt (x c * x c + y c * y c + z c * z c)"

definition normalize :: "Cartesian3 \<Rightarrow> Cartesian3" where
  "normalize c = \<lparr>x = x c / magnitude c, y = y c / magnitude c, z = z c / magnitude c\<rparr>"

subsection \<open>The position buffer\<close>

text \<open>
  The position buffer only ever grows by \<^verbatim>\<open>push\<close> of a freshly allocated vector, so it is
  a list without holes in which no two slots share an object. It is read at an index taken
  from an index array, which may be \<^verbatim>\<open>undefined\<close>; such a read, like a read past the
  end, gives \<^verbatim>\<open>undefined\<close>.
\<close>

definition position_at :: "Cartesian3 list \<Rightarrow> nat option \<Rightarrow> Cartesian3 option" where
  "position_at positions i =
     (case i of None \<Rightarrow> None
      | Some n \<Rightarrow> if n < length positions then Some (positions ! n) else None)"

text \<open>
  The exceptions: the \<^verbatim>\<open>DeveloperError\<close> of line 45, and the exception of a
  \<^verbatim>\<open>subtract\<close> whose receiver or argument is \<^verbatim>\<open>undefined\<close> (a \<^verbatim>\<open>TypeError\<close> of
  the language for the receiver).
\<close>

datatype error = DeveloperError | TypeError

subsection \<open>addEdgePositions\<close>

text \<open>
  Lines 187 to 203. The loop body writes the next free position index at \<open>indices[i]\<close> and
  pushes the interpolated point. A call on \<^verbatim>\<open>undefined\<close> in the two lines before the
  loop throws. The arithmetic here is exact; the same function with every
  operation rounded follows below, for the facts that depend on the rounding.
\<close>

definition addEdgePositions_step ::
  "Cartesian3 \<Rightarrow> Cartesian3 \<Rightarrow> int \<Rightarrow> nat \<Rightarrow> nat jsarray \<times> Cartesian3 list
     \<Rightarrow> nat jsarray \<times> Cartesian3 list" where
  "addEdgePositions_step origin direction numberOfPartitions i =
     (\<lambda>(indices, positions).
        let delta = real i / real_of_int numberOfPartitions
        in (js_set indices (int i) (Some (length positions)),
            positions @ [add origin (multiplyByScalar direction delta)]))"

definition addEdgePositions ::
  "nat \<Rightarrow> nat \<Rightarrow> int \<Rightarrow> Cartesian3 list \<Rightarrow> error + (nat jsarray \<times> Cartesian3 list)" where
  "addEdgePositions i0 i1 numberOfPartitions positions =
     (let indices = [];
          indices = js_set indices 0 (Some i0);
          indices = js_set indices (2 + (numberOfPartitions - 1) - 1) (Some i1)
      in case (position_at positions (Some i1), position_at positions (Some i0)) of
           (Some p1, Some p0) \<Rightarrow>
             let origin = p0;
                 direction = subtract p1 p0
             in Inr (fold (addEdgePositions_step origin direction numberOfPartitions)
                       [1..<nat numberOfPartitions] (indices, positions))
         | _ \<Rightarrow> Inl TypeError)"

subsection \<open>addEdgePositions in double precision\<close>

text \<open>
  The arithmetic of the source is in IEEE double precision: the result of each
  operation is the double nearest to the exact result, ties going to the even
  significand. \<open>double_round\<close> is this rounding for results that are zero or in the
  normal range of doubles (overflow, subnormal numbers and the sign of zero are left
  out): a double in the binade \<open>2\<^sup>e \<le> |v| < 2\<^sup>e\<^sup>+\<^sup>1\<close> is a multiple of \<open>2\<^sup>e\<^sup>-\<^sup>5\<^sup>2\<close>.
\<close>

definition pow2 :: "int \<Rightarrow> real" where
  "pow2 e = (if 0 \<le> e then 2 ^ nat e else 1 / 2 ^ nat (- e))"

definition binade :: "real \<Rightarrow> int" where
  "binade v = \<lfloor>log 2 \<bar>v\<bar>\<rfloor>"

definition roundHalfEven :: "real \<Rightarrow> int" where
  "roundHalfEven v =
     (let f = \<lfloor>v\<rfloor>
      in if v - of_int f < 1 / 2 then f
         else if 1 / 2 < v - of_int f then f + 1
         else if even f then f else f + 1)"

definition double_round :: "real \<Rightarrow> real" where
  "double_round v =
     (if v = 0 then 0
      else of_int (roundHalfEven (v / pow2 (binade v - 52))) * pow2 (binade v - 52))"

text \<open>
  The vector primitives and \<^verbatim>\<open>addEdgePositions\<close> (lines 187 to 203) once more, with the
  result of every arithmetic operation passed through a rounding \<open>fl\<close>: the subtraction
  of line 193, the division of line 196, and the multiplication and the addition of line
  199, each component by component. With the identity for \<open>fl\<close> these are the functions
  above, in exact arithmetic; with \<open>double_round\<close> they compute what the source computes
  in double precision.
\<close>

definition add_rounded :: "(real \<Rightarrow> real) \<Rightarrow> Cartesian3 \<Rightarrow> Cartesian3 \<Rightarrow> Cartesian3" where
  "add_rounded fl l r = \<lparr>x = fl (x l + x r), y = fl (y l + y r), z = fl (z l + z r)\<rparr>"

definition subtract_rounded :: "(real \<Rightarrow> real) \<Rightarrow> Cartesian3 \<Rightarrow> Cartesian3 \<Rightarrow> Cartesian3" where
  "subtract_rounded fl l r = \<lparr>x = fl (x l - x r), y = fl (y l - y r), z = fl (z l - z r)\<rparr>"

definition multiplyByScalar_rounded :: "(real \<Rightarrow> real) \<Rightarrow> Cartesian3 \<Rightarrow> real \<Rightarrow> Cartesian3" where
  "multiplyByScalar_rounded fl c s = \<lparr>x = fl (x c * s), y = fl (y c * s), z = fl (z c * s)\<rparr>"

definition addEdgePositions_rounded_step ::
  "(real \<Rightarrow> real) \<Rightarrow> Cartesian3 \<Rightarrow> Cartesian3 \<Rightarrow> int \<Rightarrow> nat
     \<Rightarrow> nat jsarray \<times> Cartesian3 list \<Rightarrow> nat jsarray \<times> Cartesian3 list" where
  "addEdgePositions_rounded_step fl origin direction numberOfPartitions i =
     (\<lambda>(indices, positions).
        let delta = fl (real i / real_of_int numberOfPartitions)
        in (js_set indices (int i) (Some (length positions)),
            positions @ [add_rounded fl origin (multiplyByScalar_rounded fl direction delta)]))"

definition addEdgePositions_rounded ::
  "(real \<Rightarrow> real) \<Rightarrow> nat \<Rightarrow> nat \<Rightarrow> int \<Rightarrow> Cartesian3 list
     \<Rightarrow> error + (nat jsarray \<times> Cartesian3 list)" where
  "addEdgePositions_rounded fl i0 i1 numberOfPartitions positions =
     (let indices = [];
          indices = js_set indices 0 (Some i0);
          indices = js_set indices (2 + (numberOfPartitions - 1) - 1) (Some i1)
      in case (position_at positions (Some i1), position_at positions (Some i0)) of
           (Some p1, Some p0) \<Rightarrow>
             let origin = p0;
                 direction = subtract_rounded fl p1 p0
             in Inr (fold (addEdgePositions_rounded_step fl origin direction numberOfPartitions)
                       [1..<nat numberOfPartitions] (indices, positions))
         | _ \<Rightarrow> Inl TypeError)"

subsection \<open>addFaceTriangles\<close>

text \<open>
  Lines 205 to 256. The variables \<^verbatim>\<open>bottomIndices\<close> and \<^verbatim>\<open>topIndices\<close> hold references:
  each names one of the arrays of the frame, and is read through at the time of use, so
  that a later write to \<^verbatim>\<open>topIndicesBuffer\<close> is seen through \<^verbatim>\<open>topIndices\<close>. The frame
  keeps the arrays the function can reach: its six array arguments and its two buffers.
  \<^verbatim>\<open>slice(0)\<close> allocates a copy, which in a model of values is the value itself.
\<close>

datatype array_ref =
  Ref_bottomLeftToRight | Ref_topLeftToRight | Ref_bottomIndicesBuffer | Ref_topIndicesBuffer

record frame =
  leftBottomToTop :: "nat jsarray"
  bottomLeftToRight :: "nat jsarray"
  rightBottomToTop :: "nat jsarray"
  topLeftToRight :: "nat jsarray"
  positions :: "Cartesian3 list"
  indices :: "nat jsarray"
  bottomIndicesBuffer :: "nat jsarray"
  topIndicesBuffer :: "nat jsarray"
  bottomIndices :: array_ref
  topIndices :: array_ref

definition deref :: "frame \<Rightarrow> array_ref \<Rightarrow> nat jsarray" where
  "deref st r =
     (case r of
        Ref_bottomLeftToRight \<Rightarrow> bottomLeftToRight st
      | Ref_topLeftToRight \<Rightarrow> topLeftToRight st
      | Ref_bottomIndicesBuffer \<Rightarrow> bottomIndicesBuffer st
      | Ref_topIndicesBuffer \<Rightarrow> topIndicesBuffer st)"

text \<open>The body of the loop over \<open>i\<close>, lines 233 to 237.\<close>

definition addFaceTriangles_point ::
  "Cartesian3 \<Rightarrow> Cartesian3 \<Rightarrow> Cartesian3 \<Rightarrow> int \<Rightarrow> nat \<Rightarrow> frame \<Rightarrow> frame" where
  "addFaceTriangles_point origin vx offsetY numberOfPartitions i st =
     (let deltaX = real i / real_of_int numberOfPartitions;
          offsetX = multiplyByScalar vx deltaX;
          st = st\<lparr>topIndicesBuffer :=
                    js_set (topIndicesBuffer st) (int i) (Some (length (positions st)))\<rparr>
      in st\<lparr>positions := positions st @ [add (add origin offsetX) offsetY]\<rparr>)"

text \<open>The body of the loop over \<open>k\<close>, lines 247 to 253: six pushes.\<close>

definition addFaceTriangles_cell :: "nat \<Rightarrow> frame \<Rightarrow> frame" where
  "addFaceTriangles_cell k st =
     (let st = st\<lparr>indices := indices st @ [js_get (deref st (bottomIndices st)) (int k)]\<rparr>;
          st = st\<lparr>indices := indices st @ [js_get (deref st (bottomIndices st)) (int k + 1)]\<rparr>;
          st = st\<lparr>indices := indices st @ [js_get (deref st (topIndices st)) (int k + 1)]\<rparr>;
          st = st\<lparr>indices := indices st @ [js_get (deref st (bottomIndices st)) (int k)]\<rparr>;
          st = st\<lparr>indices := indices st @ [js_get (deref st (topIndices st)) (int k + 1)]\<rparr>
      in st\<lparr>indices := indices st @ [js_get (deref st (topIndices st)) (int k)]\<rparr>)"

text \<open>The body of the loop over \<open>j\<close>, lines 217 to 254.\<close>

definition addFaceTriangles_row ::
  "Cartesian3 \<Rightarrow> Cartesian3 \<Rightarrow> Cartesian3 \<Rightarrow> int \<Rightarrow> nat \<Rightarrow> frame \<Rightarrow> frame" where
  "addFaceTriangles_row origin vx vy numberOfPartitions j st =
     (let st =
        (if int j \<noteq> numberOfPartitions then
           let st = (if j \<noteq> 1
                     then st\<lparr>bottomIndicesBuffer := topIndicesBuffer st,
                             bottomIndices := Ref_bottomIndicesBuffer\<rparr>
                     else st);
               st = st\<lparr>topIndicesBuffer :=
                         js_set (topIndicesBuffer st) 0 (js_get (leftBottomToTop st) (int j))\<rparr>;
               st = st\<lparr>topIndicesBuffer :=
                         js_set (topIndicesBuffer st) numberOfPartitions
                           (js_get (rightBottomToTop st) (int j))\<rparr>;
               deltaY = real j / real_of_int numberOfPartitions;
               offsetY = multiplyByScalar vy deltaY
           in fold (addFaceTriangles_point origin vx offsetY numberOfPartitions)
                [1..<nat numberOfPartitions] st
         else
           let st = (if j \<noteq> 1 then st\<lparr>bottomIndices := Ref_topIndicesBuffer\<rparr> else st)
           in st\<lparr>topIndices := Ref_topLeftToRight\<rparr>)
      in fold addFaceTriangles_cell [0..<nat numberOfPartitions] st)"

text \<open>
  The function up to its last statement, returning the whole frame. The three reads of
  the position buffer come first; \<^verbatim>\<open>origin\<close> may be \<^verbatim>\<open>undefined\<close> without an exception
  until it is the argument of \<^verbatim>\<open>subtract\<close>.
\<close>

definition addFaceTriangles_frame ::
  "nat jsarray \<Rightarrow> nat jsarray \<Rightarrow> nat jsarray \<Rightarrow> nat jsarray \<Rightarrow> int
     \<Rightarrow> Cartesian3 list \<Rightarrow> nat jsarray \<Rightarrow> error + frame" where
  "addFaceTriangles_frame =
     (\<lambda>leftBottomToTop bottomLeftToRight rightBottomToTop topLeftToRight numberOfPartitions
        positions indices.
      let origin = position_at positions (js_get bottomLeftToRight 0)
      in case (position_at positions
                 (js_get bottomLeftToRight (int (length bottomLeftToRight) - 1)), origin) of
           (Some p, Some origin) \<Rightarrow>
             let vx = subtract p origin
             in (case position_at positions (js_get topLeftToRight 0) of
                   Some q \<Rightarrow>
                     let vy = subtract q origin;
                         st = \<lparr>leftBottomToTop = leftBottomToTop,
                               bottomLeftToRight = bottomLeftToRight,
                               rightBottomToTop = rightBottomToTop,
                               topLeftToRight = topLeftToRight,
                               positions = positions,
                               indices = indices,
                               bottomIndicesBuffer = [],
                               topIndicesBuffer = [],
                               bottomIndices = Ref_bottomLeftToRight,
                               topIndices = Ref_topIndicesBuffer\<rparr>
                     in Inr (fold (addFaceTriangles_row origin vx vy numberOfPartitions)
                               [1..<nat numberOfPartitions + 1] st)
                 | None \<Rightarrow> Inl TypeError)
         | _ \<Rightarrow> Inl TypeError)"

text \<open>What the caller sees afterwards: the two buffers it passed, as they are now.\<close>

definition addFaceTriangles ::
  "nat jsarray \<Rightarrow> nat jsarray \<Rightarrow> nat jsarray \<Rightarrow> nat jsarray \<Rightarrow> int
     \<Rightarrow> Cartesian3 list \<Rightarrow> nat jsarray \<Rightarrow> error + (Cartesian3 list \<times> nat jsarray)" where
  "addFaceTriangles l b r t n ps ix =
     (case addFaceTriangles_frame l b r t n ps ix of
        Inl e \<Rightarrow> Inl e
      | Inr st \<Rightarrow> Inr (positions st, indices st))"

subsection \<open>The constructor: cube topology\<close>

definition andThen :: "error + 'a \<Rightarrow> ('a \<Rightarrow> error + 'b) \<Rightarrow> error + 'b" where
  "andThen r f = (case r of Inl e \<Rightarrow> Inl e | Inr v \<Rightarrow> f v)"

text \<open>
  Lines 48 to 107: the eight corners, the twelve edges, the six faces. An exception in a
  call ends the construction. \<^verbatim>\<open>e.slice(0).reverse()\<close> is a reversed copy of \<open>e\<close>, which
  \<open>e\<close> itself does not see.
\<close>

definition cubeTopology :: "int \<Rightarrow> error + (Cartesian3 list \<times> nat jsarray)" where
  "cubeTopology numberOfPartitions =
     (let positions = [];
          indices = [];
          positions = positions @ [\<lparr>x = -1, y = 0, z = -1\<rparr>];
          positions = positions @ [\<lparr>x = 0, y = -1, z = -1\<rparr>];
          positions = positions @ [\<lparr>x = 1, y = 0, z = -1\<rparr>];
          positions = positions @ [\<lparr>x = 0, y = 1, z = -1\<rparr>];
          positions = positions @ [\<lparr>x = -1, y = 0, z = 1\<rparr>];
          positions = positions @ [\<lparr>x = 0, y = -1, z = 1\<rparr>];
          positions = positions @ [\<lparr>x = 1, y = 0, z = 1\<rparr>];
          positions = positions @ [\<lparr>x = 0, y = 1, z = 1\<rparr>]
      in
      andThen (addEdgePositions 0 1 numberOfPartitions positions) (\<lambda>(edge0to1, positions).
      andThen (addEdgePositions 1 2 numberOfPartitions positions) (\<lambda>(edge1to2, positions).
      andThen (addEdgePositions 2 3 numberOfPartitions positions) (\<lambda>(edge2to3, positions).
      andThen (addEdgePositions 3 0 numberOfPartitions positions) (\<lambda>(edge3to0, positions).
      andThen (addEdgePositions 4 5 numberOfPartitions positions) (\<lambda>(edge4to5, positions).
      andThen (addEdgePositions 5 6 numberOfPartitions positions) (\<lambda>(edge5to6, positions).
      andThen (addEdgePositions 6 7 numberOfPartitions positions) (\<lambda>(edge6to7, positions).
      andThen (addEdgePositions 7 4 numberOfPartitions positions) (\<lambda>(edge7to4, positions).
      andThen (addEdgePositions 0 4 numberOfPartitions positions) (\<lambda>(edge0to4, positions).
      andThen (addEdgePositions 1 5 numberOfPartitions positions) (\<lambda>(edge1to5, positions).
      andThen (addEdgePositions 2 6 numberOfPartitions positions) (\<lambda>(edge2to6, positions).
      andThen (addEdgePositions 3 7 numberOfPartitions positions) (\<lambda>(edge3to7, positions).
      andThen (addFaceTriangles edge0to4 edge0to1 edge1to5 edge4to5
                 numberOfPartitions positions indices) (\<lambda>(positions, indices).
      andThen (addFaceTriangles edge1to5 edge1to2 edge2to6 edge5to6
                 numberOfPartitions positions indices) (\<lambda>(positions, indices).
      andThen (addFaceTriangles edge2to6 edge2to3 edge3to7 edge6to7
                 numberOfPartitions positions indices) (\<lambda>(positions, indices).
      andThen (addFaceTriangles edge3to7 edge3to0 edge0to4 edge7to4
                 numberOfPartitions positions indices) (\<lambda>(positions, indices).
      andThen (addFaceTriangles (rev edge7to4) edge4to5 edge5to6 (rev edge6to7)
                 numberOfPartitions positions indices) (\<lambda>(positions, indices).
      andThen (addFaceTriangles edge1to2 (rev edge0to1) (rev edge3to0) edge2to3
                 numberOfPartitions positions indices) (\<lambda>(positions, indices).
      Inr (positions, indices))))))))))))))))))))"


subsection \<open>The constructor: attributes\<close>

text \<open>
  Modelled from the spec: \<^verbatim>\<open>Ellipsoid.js\<close>, \<^verbatim>\<open>VertexFormat.js\<close> and \<^verbatim>\<open>defaultValue.js\<close>,
  which are not part of the sources at hand. An ellipsoid exposes its radii and the
  geodetic surface normal at a point, the normalized gradient of the implicit surface
  there: the point multiplied component-wise by the inverse squared radii, normalized. The
  default ellipsoid is the unit sphere; the default vertex format asks for positions and
  normals; \<^verbatim>\<open>defaultValue\<close> gives its second argument when the first is \<^verbatim>\<open>undefined\<close>.
\<close>

record Ellipsoid =
  radii :: Cartesian3

definition getRadii :: "Ellipsoid \<Rightarrow> Cartesian3" where
  "getRadii e = radii e"

definition oneOverRadiiSquared :: "Ellipsoid \<Rightarrow> Cartesian3" where
  "oneOverRadiiSquared e =
     \<lparr>x = (if x (radii e) = 0 then 0 else 1 / (x (radii e) * x (radii e))),
      y = (if y (radii e) = 0 then 0 else 1 / (y (radii e) * y (radii e))),
      z = (if z (radii e) = 0 then 0 else 1 / (z (radii e) * z (radii e)))\<rparr>"

definition geodeticSurfaceNormal :: "Ellipsoid \<Rightarrow> Cartesian3 \<Rightarrow> Cartesian3" where
  "geodeticSurfaceNormal e c = normalize (multiplyComponents c (oneOverRadiiSquared e))"

definition UNIT_SPHERE :: Ellipsoid where
  "UNIT_SPHERE = \<lparr>radii = \<lparr>x = 1, y = 1, z = 1\<rparr>\<rparr>"

record VertexFormat =
  position :: bool
  normal :: bool

definition DEFAULT :: VertexFormat where
  "DEFAULT = \<lparr>position = True, normal = True\<rparr>"

definition defaultValue :: "'a option \<Rightarrow> 'a \<Rightarrow> 'a" where
  "defaultValue a b = (case a of None \<Rightarrow> b | Some v \<Rightarrow> v)"

text \<open>
  The options the claims are about; \<^verbatim>\<open>modelMatrix\<close> and \<^verbatim>\<open>pickData\<close> are passed through
  to the result and left out, as is the bounding sphere, which is computed from the
  ellipsoid alone.
\<close>

record options =
  ellipsoid :: "Ellipsoid option"
  numberOfPartitions :: "int option"
  vertexFormat :: "VertexFormat option"

definition EMPTY_OBJECT :: options where
  "EMPTY_OBJECT = \<lparr>ellipsoid = None, numberOfPartitions = None, vertexFormat = None\<rparr>"

text \<open>
  The result: the attributes by name, each with the values of its \<^verbatim>\<open>GeometryAttribute\<close>,
  and the values of the one \<^verbatim>\<open>GeometryIndices\<close> of \<^verbatim>\<open>indexLists\<close>.
\<close>

record Geometry =
  attributes :: "string \<rightharpoonup> real jsarray"
  indexLists :: "nat jsarray list"

text \<open>
  The body of the loop of lines 121 to 128. \<^verbatim>\<open>item\<close> is the object in slot \<open>i\<close> of the
  position buffer, and both calls write their result into it: the slot is overwritten.
  The loop runs for \<open>i\<close> below the length of the buffer, which does not change.
\<close>

definition project_step ::
  "Cartesian3 \<Rightarrow> nat \<Rightarrow> Cartesian3 list \<times> real jsarray \<times> int
     \<Rightarrow> Cartesian3 list \<times> real jsarray \<times> int" where
  "project_step =
     (\<lambda>radii i (positions, flattenedPositions, j).
        let positions = positions[i := normalize (positions ! i)];
            positions = positions[i := multiplyComponents (positions ! i) radii];
            item = positions ! i;
            flattenedPositions = js_set flattenedPositions j (Some (x item));
            j = j + 1;
            flattenedPositions = js_set flattenedPositions j (Some (y item));
            j = j + 1;
            flattenedPositions = js_set flattenedPositions j (Some (z item));
            j = j + 1
        in (positions, flattenedPositions, j))"

text \<open>
  The body of the loop of lines 142 to 147. The result of the ellipsoid's function goes
  into the temporary vector \<^verbatim>\<open>normal\<close>; the position buffer is read, not written.
\<close>

definition normal_step ::
  "Ellipsoid \<Rightarrow> Cartesian3 list \<Rightarrow> nat \<Rightarrow> real jsarray \<times> int \<Rightarrow> real jsarray \<times> int" where
  "normal_step =
     (\<lambda>ellipsoid positions i (normals, j).
        let normal = geodeticSurfaceNormal ellipsoid (positions ! i);
            normals = js_set normals j (Some (x normal));
            j = j + 1;
            normals = js_set normals j (Some (y normal));
            j = j + 1;
            normals = js_set normals j (Some (z normal));
            j = j + 1
        in (normals, j))"

text \<open>
  Lines 36 to 185. Beside the geometry, the model gives the position buffer as it is
  when the constructor ends, to state what became of it.
\<close>

definition EllipsoidGeometry_run :: "options option \<Rightarrow> error + (Geometry \<times> Cartesian3 list)" where
  "EllipsoidGeometry_run opts =
     (let options = defaultValue opts EMPTY_OBJECT;
          ellipsoid = defaultValue (ellipsoid options) UNIT_SPHERE;
          numberOfPartitions = defaultValue (numberOfPartitions options) 32;
          vertexFormat = defaultValue (vertexFormat options) DEFAULT
      in if numberOfPartitions \<le> 0 then Inl DeveloperError
         else
           andThen (cubeTopology numberOfPartitions) (\<lambda>(positions, indices).
             let attributes = Map.empty;
                 len = length positions;
                 (positions, attributes) =
                   (if position vertexFormat then
                      let radii = getRadii ellipsoid;
                          flattenedPositions = replicate (len * 3) None;
                          (positions, flattenedPositions, j) =
                            fold (project_step radii) [0..<len]
                              (positions, flattenedPositions, 0)
                      in (positions, attributes(''position'' \<mapsto> flattenedPositions))
                    else (positions, attributes));
                 attributes =
                   (if normal vertexFormat then
                      let normals = replicate (len * 3) None;
                          (normals, j) =
                            fold (normal_step ellipsoid positions) [0..<len] (normals, 0)
                      in attributes(''normal'' \<mapsto> normals)
                    else attributes)
             in Inr (\<lparr>attributes = attributes, indexLists = [indices]\<rparr>, positions)))"

definition EllipsoidGeometry :: "options option \<Rightarrow> error + Geometry" where
  "EllipsoidGeometry opts =
     (case EllipsoidGeometry_run opts of Inl e \<Rightarrow> Inl e | Inr (g, ps) \<Rightarrow> Inr g)"

section \<open>What the helpers compute, in closed form\<close>

text \<open>
  The definitions below are not taken from the source: they say, without loops or
  mutation, which points and indices a call produces. The lemmas after them prove that
  the functions of the source compute exactly these.
\<close>

text \<open>
  The interior points of an edge from \<open>p0\<close> to \<open>p1\<close>, in the order of the loop, and
  the index list of an edge whose interior points start at index \<open>len\<close>.
\<close>

definition edgePoints :: "Cartesian3 \<Rightarrow> Cartesian3 \<Rightarrow> int \<Rightarrow> Cartesian3 list" where
  "edgePoints p0 p1 N =
     map (\<lambda>i. add p0 (multiplyByScalar (subtract p1 p0) (real i / real_of_int N)))
       [1..<nat N]"

definition edgeIndices :: "nat \<Rightarrow> nat \<Rightarrow> int \<Rightarrow> nat \<Rightarrow> nat jsarray" where
  "edgeIndices i0 i1 N len = Some i0 # map Some [len..<len + (nat N - 1)] @ [Some i1]"

text \<open>
  The grid of a face whose new points start at index \<open>len\<close>: row \<open>0\<close> is the bottom
  edge, row \<open>n\<close> the top edge, and row \<open>j\<close> in between holds entry \<open>j\<close> of the left
  edge, the \<open>n - 1\<close> indices of the points of that row, and entry \<open>j\<close> of the right
  edge.
\<close>

definition rowIndices :: "nat jsarray \<Rightarrow> nat jsarray \<Rightarrow> nat \<Rightarrow> nat \<Rightarrow> nat \<Rightarrow> nat jsarray" where
  "rowIndices L R n len j =
     js_get L (int j) # map Some [len + (j - 1) * (n - 1)..<len + j * (n - 1)] @ [js_get R (int j)]"

definition faceGrid ::
  "nat jsarray \<Rightarrow> nat jsarray \<Rightarrow> nat jsarray \<Rightarrow> nat jsarray \<Rightarrow> nat \<Rightarrow> nat \<Rightarrow> nat \<Rightarrow> nat jsarray" where
  "faceGrid L B R T n len j = (if j = 0 then B else if j = n then T else rowIndices L R n len j)"

text \<open>
  The two triangles of cell \<open>k\<close> between a bottom and a top row, the triangles of a
  row, and the triangles of a face, row after row.
\<close>

definition cellTriangles :: "nat jsarray \<Rightarrow> nat jsarray \<Rightarrow> nat \<Rightarrow> nat jsarray" where
  "cellTriangles b t k =
     [js_get b (int k), js_get b (int k + 1), js_get t (int k + 1),
      js_get b (int k), js_get t (int k + 1), js_get t (int k)]"

definition rowTriangles :: "nat jsarray \<Rightarrow> nat jsarray \<Rightarrow> nat \<Rightarrow> nat jsarray" where
  "rowTriangles b t n = concat (map (cellTriangles b t) [0..<n])"

definition faceTriangles ::
  "nat jsarray \<Rightarrow> nat jsarray \<Rightarrow> nat jsarray \<Rightarrow> nat jsarray \<Rightarrow> nat \<Rightarrow> nat \<Rightarrow> nat jsarray" where
  "faceTriangles L B R T n len =
     concat (map (\<lambda>j. rowTriangles (faceGrid L B R T n len (j - 1)) (faceGrid L B R T n len j) n)
               [1..<Suc n])"

text \<open>
  The points a face adds: for each row \<open>j = 1..N - 1\<close>, the points
  \<open>origin + vx (i / N) + vy (j / N)\<close> for \<open>i = 1..N - 1\<close>.
\<close>

definition rowPoints :: "Cartesian3 \<Rightarrow> Cartesian3 \<Rightarrow> Cartesian3 \<Rightarrow> int \<Rightarrow> nat \<Rightarrow> Cartesian3 list" where
  "rowPoints origin vx vy N j =
     map (\<lambda>i. add (add origin (multiplyByScalar vx (real i / real_of_int N)))
                 (multiplyByScalar vy (real j / real_of_int N)))
       [1..<nat N]"

definition facePoints :: "Cartesian3 \<Rightarrow> Cartesian3 \<Rightarrow> Cartesian3 \<Rightarrow> int \<Rightarrow> Cartesian3 list" where
  "facePoints origin vx vy N = concat (map (rowPoints origin vx vy N) [1..<nat N])"

text \<open>
  The frame at the start of the loop over \<open>j\<close>.
\<close>

definition frame0 ::
  "nat jsarray \<Rightarrow> nat jsarray \<Rightarrow> nat jsarray \<Rightarrow> nat jsarray \<Rightarrow> Cartesian3 list \<Rightarrow> nat jsarray \<Rightarrow> frame" where
  "frame0 L B R T ps ix =
     \<lparr>leftBottomToTop = L, bottomLeftToRight = B, rightBottomToTop = R, topLeftToRight = T,
      positions = ps, indices = ix, bottomIndicesBuffer = [], topIndicesBuffer = [],
      bottomIndices = Ref_bottomLeftToRight, topIndices = Ref_topIndicesBuffer\<rparr>"

text \<open>
  The cube: its corners, the points of the edge from corner \<open>a\<close> to corner \<open>b\<close>, and
  the points of the face with origin \<open>a\<close>, bottom edge towards \<open>b\<close> and left edge
  towards \<open>c\<close>.
\<close>

definition cubeCorners :: "Cartesian3 list" where
  "cubeCorners =
     [\<lparr>x = -1, y = 0, z = -1\<rparr>, \<lparr>x = 0, y = -1, z = -1\<rparr>,
      \<lparr>x = 1, y = 0, z = -1\<rparr>, \<lparr>x = 0, y = 1, z = -1\<rparr>,
      \<lparr>x = -1, y = 0, z = 1\<rparr>, \<lparr>x = 0, y = -1, z = 1\<rparr>,
      \<lparr>x = 1, y = 0, z = 1\<rparr>, \<lparr>x = 0, y = 1, z = 1\<rparr>]"

definition cubeEdgePoints :: "int \<Rightarrow> nat \<Rightarrow> nat \<Rightarrow> Cartesian3 list" where
  "cubeEdgePoints N a b = edgePoints (cubeCorners ! a) (cubeCorners ! b) N"

definition cubeFacePoints :: "int \<Rightarrow> nat \<Rightarrow> nat \<Rightarrow> nat \<Rightarrow> Cartesian3 list" where
  "cubeFacePoints N a b c =
     facePoints (cubeCorners ! a) (subtract (cubeCorners ! b) (cubeCorners ! a))
       (subtract (cubeCorners ! c) (cubeCorners ! a)) N"

text \<open>
  The number of interior points of an edge.
\<close>

definition interior :: "int \<Rightarrow> nat" where
  "interior N = nat N - 1"

text \<open>
  The index list of the \<open>k\<close>-th edge (counting from \<open>0\<close>) and the triangles of the
  \<open>f\<close>-th face, then the whole position buffer and the whole index buffer of the cube.
\<close>

definition cubeEdge :: "int \<Rightarrow> nat \<Rightarrow> nat \<Rightarrow> nat \<Rightarrow> nat jsarray" where
  "cubeEdge N k a b = edgeIndices a b N (8 + k * interior N)"

definition cubeFace ::
  "int \<Rightarrow> nat \<Rightarrow> nat jsarray \<Rightarrow> nat jsarray \<Rightarrow> nat jsarray \<Rightarrow> nat jsarray \<Rightarrow> nat jsarray" where
  "cubeFace N f L B R T =
     faceTriangles L B R T (nat N) (8 + 12 * interior N + f * (interior N * interior N))"

definition cubePositions :: "int \<Rightarrow> Cartesian3 list" where
  "cubePositions N =
     cubeCorners
     @ cubeEdgePoints N 0 1 @ cubeEdgePoints N 1 2 @ cubeEdgePoints N 2 3 @ cubeEdgePoints N 3 0
     @ cubeEdgePoints N 4 5 @ cubeEdgePoints N 5 6 @ cubeEdgePoints N 6 7 @ cubeEdgePoints N 7 4
     @ cubeEdgePoints N 0 4 @ cubeEdgePoints N 1 5 @ cubeEdgePoints N 2 6 @ cubeEdgePoints N 3 7
     @ cubeFacePoints N 0 1 4 @ cubeFacePoints N 1 2 5 @ cubeFacePoints N 2 3 6
     @ cubeFacePoints N 3 0 7 @ cubeFacePoints N 4 5 7 @ cubeFacePoints N 1 0 2"

definition cubeIndices :: "int \<Rightarrow> nat jsarray" where
  "cubeIndices N =
     (let edge0to1 = cubeEdge N 0 0 1; edge1to2 = cubeEdge N 1 1 2;
          edge2to3 = cubeEdge N 2 2 3; edge3to0 = cubeEdge N 3 3 0;
          edge4to5 = cubeEdge N 4 4 5; edge5to6 = cubeEdge N 5 5 6;
          edge6to7 = cubeEdge N 6 6 7; edge7to4 = cubeEdge N 7 7 4;
          edge0to4 = cubeEdge N 8 0 4; edge1to5 = cubeEdge N 9 1 5;
          edge2to6 = cubeEdge N 10 2 6; edge3to7 = cubeEdge N 11 3 7
      in cubeFace N 0 edge0to4 edge0to1 edge1to5 edge4to5
         @ cubeFace N 1 edge1to5 edge1to2 edge2to6 edge5to6
         @ cubeFace N 2 edge2to6 edge2to3 edge3to7 edge6to7
         @ cubeFace N 3 edge3to7 edge3to0 edge0to4 edge7to4
         @ cubeFace N 4 (rev edge7to4) edge4to5 edge5to6 (rev edge6to7)
         @ cubeFace N 5 edge1to2 (rev edge0to1) (rev edge3to0) edge2to3)"

text \<open>
  A later frame extends an earlier one when the four edge lists are the same and the
  position buffer has only grown at its end.
\<close>

definition extends :: "frame \<Rightarrow> frame \<Rightarrow> bool" where
  "extends st st' \<longleftrightarrow>
     leftBottomToTop st' = leftBottomToTop st \<and> bottomLeftToRight st' = bottomLeftToRight st
     \<and> rightBottomToTop st' = rightBottomToTop st \<and> topLeftToRight st' = topLeftToRight st
     \<and> (\<exists>new. positions st' = positions st @ new)"

text \<open>
  The flat array of the components of a list of vectors, and the projection of a cube
  point onto the ellipsoid of radii \<open>rs\<close>.
\<close>

definition flatten :: "Cartesian3 list \<Rightarrow> real jsarray" where
  "flatten ps = concat (map (\<lambda>p. [Some (x p), Some (y p), Some (z p)]) ps)"

definition project :: "Cartesian3 \<Rightarrow> Cartesian3 \<Rightarrow> Cartesian3" where
  "project rs p = multiplyComponents (normalize p) rs"

text \<open>
  The three settings the constructor reads from its options, with their defaults; the
  position buffer at its end; and its attributes.
\<close>

definition partitionCount :: "options option \<Rightarrow> int" where
  "partitionCount opts = defaultValue (numberOfPartitions (defaultValue opts EMPTY_OBJECT)) 32"

definition chosenEllipsoid :: "options option \<Rightarrow> Ellipsoid" where
  "chosenEllipsoid opts = defaultValue (ellipsoid (defaultValue opts EMPTY_OBJECT)) UNIT_SPHERE"

definition chosenFormat :: "options option \<Rightarrow> VertexFormat" where
  "chosenFormat opts = defaultValue (vertexFormat (defaultValue opts EMPTY_OBJECT)) DEFAULT"

definition finalPositions :: "options option \<Rightarrow> Cartesian3 list" where
  "finalPositions opts =
     (if position (chosenFormat opts)
      then map (project (getRadii (chosenEllipsoid opts))) (cubePositions (partitionCount opts))
      else cubePositions (partitionCount opts))"

definition finalAttributes :: "options option \<Rightarrow> string \<rightharpoonup> real jsarray" where
  "finalAttributes opts =
     (\<lambda>name.
        if name = ''normal'' \<and> normal (chosenFormat opts)
        then Some (flatten (map (geodeticSurfaceNormal (chosenEllipsoid opts)) (finalPositions opts)))
        else if name = ''position'' \<and> position (chosenFormat opts)
        then Some (flatten (finalPositions opts))
        else None)"

text \<open>
  An ellipsoid that is not a sphere.
\<close>

definition squashed :: Ellipsoid where
  "squashed = \<lparr>radii = \<lparr>x = 1, y = 1, z = 2\<rparr>\<rparr>"

text \<open>
  The boundaries of the six faces in the order of the calls, the number of positions
  in the buffer when face \<open>f\<close> starts, the triangles of row \<open>j\<close> of face \<open>f\<close>, and the
  number of positions in the buffer when these are pushed: rows \<open>1..N - 1\<close> each add
  \<open>N - 1\<close> points before their cells, row \<open>N\<close> adds none.
\<close>

definition cubeFaces :: "int \<Rightarrow> (nat jsarray \<times> nat jsarray \<times> nat jsarray \<times> nat jsarray) list" where
  "cubeFaces N =
     (let edge0to1 = cubeEdge N 0 0 1; edge1to2 = cubeEdge N 1 1 2;
          edge2to3 = cubeEdge N 2 2 3; edge3to0 = cubeEdge N 3 3 0;
          edge4to5 = cubeEdge N 4 4 5; edge5to6 = cubeEdge N 5 5 6;
          edge6to7 = cubeEdge N 6 6 7; edge7to4 = cubeEdge N 7 7 4;
          edge0to4 = cubeEdge N 8 0 4; edge1to5 = cubeEdge N 9 1 5;
          edge2to6 = cubeEdge N 10 2 6; edge3to7 = cubeEdge N 11 3 7
      in [(edge0to4, edge0to1, edge1to5, edge4to5),
          (edge1to5, edge1to2, edge2to6, edge5to6),
          (edge2to6, edge2to3, edge3to7, edge6to7),
          (edge3to7, edge3to0, edge0to4, edge7to4),
          (rev edge7to4, edge4to5, edge5to6, rev edge6to7),
          (edge1to2, rev edge0to1, rev edge3to0, edge2to3)])"

definition positionsBeforeFace :: "int \<Rightarrow> nat \<Rightarrow> nat" where
  "positionsBeforeFace N f = 8 + 12 * interior N + f * (interior N * interior N)"

definition cubeRow :: "int \<Rightarrow> nat \<Rightarrow> nat \<Rightarrow> nat jsarray" where
  "cubeRow N f j =
     (case cubeFaces N ! f of
        (L, B, R, T) \<Rightarrow>
          rowTriangles (faceGrid L B R T (nat N) (positionsBeforeFace N f) (j - 1))
            (faceGrid L B R T (nat N) (positionsBeforeFace N f) j) (nat N))"

definition positionsAfterRow :: "int \<Rightarrow> nat \<Rightarrow> nat \<Rightarrow> nat" where
  "positionsAfterRow N f j = positionsBeforeFace N f + min j (interior N) * interior N"

text \<open>
  An index row of \<open>n + 1\<close> entries, each a number below \<open>bound\<close>.
\<close>

definition validRow :: "nat \<Rightarrow> nat \<Rightarrow> nat jsarray \<Rightarrow> bool" where
  "validRow n bound row \<longleftrightarrow> length row = Suc n \<and> (\<forall>i\<in>set row. \<exists>k<bound. i = Some k)"





text \<open>
  The interior points of an edge as the rounded function computes them.
\<close>

definition edgePoints_rounded ::
  "(real \<Rightarrow> real) \<Rightarrow> Cartesian3 \<Rightarrow> Cartesian3 \<Rightarrow> int \<Rightarrow> Cartesian3 list" where
  "edgePoints_rounded fl p0 p1 N =
     map (\<lambda>i. add_rounded fl p0
                 (multiplyByScalar_rounded fl (subtract_rounded fl p1 p0)
                    (fl (real i / real_of_int N))))
       [1..<nat N]"

section \<open>The loops compute the closed forms\<close>

lemma js_get_nth: "k < length a \<Longrightarrow> js_get a (int k) = a ! k"
  by (simp add: js_get_def)

lemma js_get_beyond: "length a \<le> k \<Longrightarrow> js_get a (int k) = None"
  by (simp add: js_get_def)

lemma js_set_inside: "k < length a \<Longrightarrow> js_set a (int k) v = a[k := v]"
  by (simp add: js_set_def)

lemma js_set_grow:
  "length a \<le> k \<Longrightarrow> js_set a (int k) v = a @ replicate (k - length a) None @ [v]"
  by (simp add: js_set_def)

lemma js_set_at_length: "js_set (A @ u # C) (int (length A)) v = A @ v # C"
  by (simp add: js_set_def)

lemma edge_loop:
  assumes "k < n"
  shows "fold (addEdgePositions_step p0 d N) [1..<Suc k]
           (Some i0 # replicate (n - 1) None @ [Some i1], ps)
         = (Some i0 # map Some [length ps..<length ps + k] @ replicate (n - Suc k) None @ [Some i1],
            ps @ map (\<lambda>i. add p0 (multiplyByScalar d (real i / real_of_int N))) [1..<Suc k])"
  using assms
proof (induction k)
  case 0
  then show ?case by simp
next
  case (Suc k)
  then have k: "k < n" "Suc k < n" by auto
  define A where "A = Some i0 # map Some [length ps..<length ps + k]"
  define C where "C = replicate (n - Suc (Suc k)) (None::nat option) @ [Some i1]"
  have upt: "[1..<Suc (Suc k)] = [1..<Suc k] @ [Suc k]" by simp
  have rep: "replicate (n - Suc k) (None::nat option) = None # replicate (n - Suc (Suc k)) None"
    using k by (cases "n - Suc k") auto
  have lenA: "length A = Suc k" by (simp add: A_def)
  have before: "Some i0 # map Some [length ps..<length ps + k] @ replicate (n - Suc k) None @ [Some i1]
                 = A @ None # C"
    by (simp add: A_def C_def rep del: replicate_Suc)
  have after: "A @ Some (length ps + k) # C
                 = Some i0 # map Some [length ps..<length ps + Suc k]
                     @ replicate (n - Suc (Suc k)) None @ [Some i1]"
    by (simp add: A_def C_def)
  define f where "f = (\<lambda>i. add p0 (multiplyByScalar d (real i / real_of_int N)))"
  define M where "M = map f [1..<Suc k]"
  have lenM: "length (ps @ M) = length ps + k" by (simp add: M_def)
  have set: "js_set (A @ None # C) (int (Suc k)) (Some (length ps + k)) = A @ Some (length ps + k) # C"
    using js_set_at_length[of A None C] lenA by simp
  have step: "addEdgePositions_step p0 d N (Suc k) (A @ None # C, ps @ M)
                = (A @ Some (length ps + k) # C, ps @ M @ [f (Suc k)])"
    unfolding addEdgePositions_step_def Let_def prod.case lenM set f_def by simp
  have maps: "M @ [f (Suc k)] = map f [1..<Suc (Suc k)]"
    unfolding M_def upt by simp
  have "fold (addEdgePositions_step p0 d N) [1..<Suc (Suc k)]
           (Some i0 # replicate (n - 1) None @ [Some i1], ps)
        = addEdgePositions_step p0 d N (Suc k) (A @ None # C, ps @ M)"
    unfolding upt fold_append comp_def Suc.IH[OF k(1)] before M_def f_def by simp
  also have "\<dots> = (A @ Some (length ps + k) # C, ps @ map f [1..<Suc (Suc k)])"
    unfolding step maps ..
  finally show ?case unfolding after f_def .
qed

lemma addEdgePositions_closed:
  assumes "1 \<le> N" "i0 < length ps" "i1 < length ps"
  shows "addEdgePositions i0 i1 N ps
           = Inr (edgeIndices i0 i1 N (length ps), ps @ edgePoints (ps ! i0) (ps ! i1) N)"
proof -
  have init: "js_set (js_set [] 0 (Some i0)) N (Some i1)
                = Some i0 # replicate (nat N - 1) None @ [Some i1]"
    using assms(1) by (simp add: js_set_def)
  have "nat N - 1 < nat N" "Suc (nat N - 1) = nat N" using assms(1) by auto
  from edge_loop[OF this(1)] this(2) show ?thesis
    using assms(2,3)
    by (simp add: addEdgePositions_def Let_def init position_at_def edgePoints_def edgeIndices_def)
qed

lemma deref_indices [simp]: "deref (st\<lparr>indices := v\<rparr>) r = deref st r"
  by (cases r) (simp_all add: deref_def)

lemma cell_step:
  "addFaceTriangles_cell k st
     = st\<lparr>indices := indices st
           @ cellTriangles (deref st (bottomIndices st)) (deref st (topIndices st)) k\<rparr>"
  by (simp add: addFaceTriangles_cell_def Let_def cellTriangles_def)

lemma cell_loop:
  "fold addFaceTriangles_cell [0..<m] st
     = st\<lparr>indices := indices st
           @ concat (map (cellTriangles (deref st (bottomIndices st)) (deref st (topIndices st))) [0..<m])\<rparr>"
proof (induction m)
  case 0
  then show ?case by simp
next
  case (Suc m)
  show ?case
    unfolding upt_Suc_append[OF le0] fold_append comp_def Suc.IH
    by (simp add: cell_step)
qed

lemma point_loop:
  assumes "k < n" "length Z = n - 1" "topIndicesBuffer st = u # Z @ [w]"
  shows "fold (addFaceTriangles_point p0 vx oy N) [1..<Suc k] st
         = st\<lparr>topIndicesBuffer :=
                 u # map Some [length (positions st)..<length (positions st) + k] @ drop k Z @ [w],
               positions := positions st
                 @ map (\<lambda>i. add (add p0 (multiplyByScalar vx (real i / real_of_int N))) oy)
                     [1..<Suc k]\<rparr>"
  using assms(1)
proof (induction k)
  case 0
  then show ?case using assms(3) by simp
next
  case (Suc k)
  then have k: "k < n" "Suc k < n" by auto
  define len where "len = length (positions st)"
  define A where "A = u # map Some [len..<len + k]"
  define C where "C = drop (Suc k) Z @ [w]"
  define f where "f = (\<lambda>i. add (add p0 (multiplyByScalar vx (real i / real_of_int N))) oy)"
  define M where "M = map f [1..<Suc k]"
  have upt: "[1..<Suc (Suc k)] = [1..<Suc k] @ [Suc k]" by simp
  have kZ: "k < length Z" using k assms(2) by simp
  have lenA: "length A = Suc k" by (simp add: A_def)
  have before: "u # map Some [len..<len + k] @ drop k Z @ [w] = A @ Z ! k # C"
    by (simp add: A_def C_def Cons_nth_drop_Suc[OF kZ])
  have after: "A @ Some (len + k) # C = u # map Some [len..<len + Suc k] @ drop (Suc k) Z @ [w]"
    by (simp add: A_def C_def)
  have lenM: "length (positions st @ M) = len + k" by (simp add: M_def len_def)
  have set: "js_set (A @ Z ! k # C) (int (Suc k)) (Some (len + k)) = A @ Some (len + k) # C"
    using js_set_at_length[of A "Z ! k" C] lenA by simp
  have maps: "M @ [f (Suc k)] = map f [1..<Suc (Suc k)]"
    unfolding M_def upt by simp
  have step: "addFaceTriangles_point p0 vx oy N (Suc k)
                (st\<lparr>topIndicesBuffer := A @ Z ! k # C, positions := positions st @ M\<rparr>)
              = st\<lparr>topIndicesBuffer := A @ Some (len + k) # C,
                    positions := positions st @ map f [1..<Suc (Suc k)]\<rparr>"
    unfolding maps[symmetric]
    by (simp add: addFaceTriangles_point_def Let_def lenM[simplified] set[simplified] f_def)
  have "fold (addFaceTriangles_point p0 vx oy N) [1..<Suc (Suc k)] st
        = addFaceTriangles_point p0 vx oy N (Suc k)
            (st\<lparr>topIndicesBuffer := A @ Z ! k # C, positions := positions st @ M\<rparr>)"
    unfolding upt fold_append comp_def Suc.IH[OF k(1)] before[unfolded len_def] M_def f_def len_def
    by simp
  then show ?case using after unfolding step f_def len_def by simp
qed

lemma row_setup:
  assumes "2 \<le> n" "a = [] \<or> length a = Suc n"
  shows "\<exists>Z. length Z = n - 1 \<and> js_set (js_set a 0 u) (int n) w = u # Z @ [w]"
proof (cases "a = []")
  case True
  have "js_set (js_set a 0 u) (int n) w = u # replicate (n - 1) None @ [w]"
    using assms(1) True by (simp add: js_set_def)
  then show ?thesis by (intro exI[of _ "replicate (n - 1) None"]) simp
next
  case False
  then have len: "length a = Suc n" using assms(2) by simp
  then obtain a0 r where a: "a = a0 # r" "length r = n" by (cases a) auto
  then have "r \<noteq> []" using assms(1) by auto
  then have r: "r = butlast r @ [last r]" by simp
  have lb: "length (butlast r) = n - 1" using a by simp
  have "js_set (js_set a 0 u) (int n) w = (u # r)[n := w]"
    using a by (simp add: js_set_def)
  also have "\<dots> = u # r[n - 1 := w]" using assms(1) by (cases n) auto
  also have "r[n - 1 := w] = butlast r @ [w]"
    using list_update_length[of "butlast r" "last r" "[]" w] r lb by simp
  finally show ?thesis using lb by (intro exI[of _ "butlast r"]) simp
qed

lemma row_inner:
  assumes j: "1 \<le> j" "j < n"
    and buf: "topIndicesBuffer st = [] \<or> length (topIndicesBuffer st) = Suc n"
    and top: "topIndices st = Ref_topIndicesBuffer"
    and bot: "j = 1 \<longrightarrow> bottomIndices st = Ref_bottomLeftToRight"
  shows "addFaceTriangles_row p0 vx vy (int n) j st
         = st\<lparr>bottomIndicesBuffer := (if j \<noteq> 1 then topIndicesBuffer st else bottomIndicesBuffer st),
               bottomIndices := (if j \<noteq> 1 then Ref_bottomIndicesBuffer else Ref_bottomLeftToRight),
               topIndicesBuffer :=
                 js_get (leftBottomToTop st) (int j)
                 # map Some [length (positions st)..<length (positions st) + (n - 1)]
                 @ [js_get (rightBottomToTop st) (int j)],
               positions := positions st @ rowPoints p0 vx vy (int n) j,
               indices := indices st
                 @ rowTriangles (if j \<noteq> 1 then topIndicesBuffer st else bottomLeftToRight st)
                     (js_get (leftBottomToTop st) (int j)
                      # map Some [length (positions st)..<length (positions st) + (n - 1)]
                      @ [js_get (rightBottomToTop st) (int j)]) n\<rparr>"
proof -
  have n2: "2 \<le> n" using j by simp
  define u where "u = js_get (leftBottomToTop st) (int j)"
  define w where "w = js_get (rightBottomToTop st) (int j)"
  obtain Z where Z: "length Z = n - 1"
      "js_set (js_set (topIndicesBuffer st) 0 u) (int n) w = u # Z @ [w]"
    using row_setup[OF n2 buf] by blast
  define st1 where "st1 = (if j \<noteq> 1
                     then st\<lparr>bottomIndicesBuffer := topIndicesBuffer st,
                             bottomIndices := Ref_bottomIndicesBuffer\<rparr>
                     else st)"
  define st2 where "st2 = st1\<lparr>topIndicesBuffer := u # Z @ [w]\<rparr>"
  have st2: "topIndicesBuffer st2 = u # Z @ [w]" "positions st2 = positions st"
    by (simp_all add: st2_def st1_def)
  have k: "n - 1 < n" "Suc (n - 1) = n" using j by auto
  note loop = point_loop[OF k(1) Z(1) st2(1), unfolded k(2) st2(2),
      of p0 vx "multiplyByScalar vy (real j / real_of_int (int n))" "int n"]
  have Zdrop: "drop (n - 1) Z = []" using Z(1) by simp
  have nat: "nat (int n) = n" by simp
  have jn: "int j \<noteq> int n" using j by simp
  have row1: "(let st = (if int j \<noteq> int n then
           let st = (if j \<noteq> 1
                     then st\<lparr>bottomIndicesBuffer := topIndicesBuffer st,
                             bottomIndices := Ref_bottomIndicesBuffer\<rparr>
                     else st);
               st = st\<lparr>topIndicesBuffer :=
                         js_set (topIndicesBuffer st) 0 (js_get (leftBottomToTop st) (int j))\<rparr>;
               st = st\<lparr>topIndicesBuffer :=
                         js_set (topIndicesBuffer st) (int n)
                           (js_get (rightBottomToTop st) (int j))\<rparr>;
               deltaY = real j / real_of_int (int n);
               offsetY = multiplyByScalar vy deltaY
           in fold (addFaceTriangles_point p0 vx offsetY (int n))
                [1..<nat (int n)] st
         else
           let st = (if j \<noteq> 1 then st\<lparr>bottomIndices := Ref_topIndicesBuffer\<rparr> else st)
           in st\<lparr>topIndices := Ref_topLeftToRight\<rparr>)
      in fold addFaceTriangles_cell [0..<nat (int n)] st)
      = fold addFaceTriangles_cell [0..<n]
          (fold (addFaceTriangles_point p0 vx (multiplyByScalar vy (real j / real_of_int (int n))) (int n))
             [1..<n] st2)"
    unfolding Let_def nat if_P[OF jn] st2_def st1_def
    using Z(2) by (cases "j = 1") (simp_all add: u_def w_def)
  show ?thesis
    unfolding addFaceTriangles_row_def row1 loop cell_loop Zdrop
    using top bot
    by (simp add: st2_def st1_def deref_def rowPoints_def rowTriangles_def u_def w_def)
qed

lemma row_last:
  assumes top: "n = 1 \<longrightarrow> bottomIndices st = Ref_bottomLeftToRight" and n: "1 \<le> n"
  shows "addFaceTriangles_row p0 vx vy (int n) n st
         = st\<lparr>bottomIndices := (if n \<noteq> 1 then Ref_topIndicesBuffer else Ref_bottomLeftToRight),
               topIndices := Ref_topLeftToRight,
               indices := indices st
                 @ rowTriangles (if n \<noteq> 1 then topIndicesBuffer st else bottomLeftToRight st)
                     (topLeftToRight st) n\<rparr>"
  unfolding addFaceTriangles_row_def Let_def cell_loop
  using top by (simp add: deref_def rowTriangles_def)

lemma length_rowPoints [simp]: "length (rowPoints p0 vx vy N j) = nat N - 1"
  by (simp add: rowPoints_def)

lemma length_concat_const:
  "(\<And>v. v \<in> set vs \<Longrightarrow> length (f v) = c) \<Longrightarrow> length (concat (map f vs)) = length vs * c"
  by (induction vs) auto

lemma length_rowIndices: "1 \<le> j \<Longrightarrow> 1 \<le> n \<Longrightarrow> length (rowIndices L R n len j) = Suc n"
proof -
  assume a: "1 \<le> j" "1 \<le> n"
  then obtain j' where j': "j = Suc j'" by (cases j) auto
  show ?thesis using a by (simp add: rowIndices_def j')
qed

lemma rows_inner:
  fixes p0 vx vy n m L B R T ps ix
  defines "st \<equiv> fold (addFaceTriangles_row p0 vx vy (int n)) [1..<Suc m] (frame0 L B R T ps ix)"
  assumes "m < n"
  shows "leftBottomToTop st = L \<and> bottomLeftToRight st = B \<and> rightBottomToTop st = R
         \<and> topLeftToRight st = T
         \<and> positions st = ps @ concat (map (rowPoints p0 vx vy (int n)) [1..<Suc m])
         \<and> indices st = ix @ concat (map (\<lambda>j. rowTriangles (faceGrid L B R T n (length ps) (j - 1))
                                                 (faceGrid L B R T n (length ps) j) n) [1..<Suc m])
         \<and> topIndicesBuffer st = (if m = 0 then [] else rowIndices L R n (length ps) m)
         \<and> topIndices st = Ref_topIndicesBuffer
         \<and> (m = 0 \<longrightarrow> bottomIndices st = Ref_bottomLeftToRight)"
  using assms(2) unfolding st_def
proof (induction m)
  case 0
  then show ?case by (simp add: frame0_def)
next
  case (Suc m)
  define st where "st = fold (addFaceTriangles_row p0 vx vy (int n)) [1..<Suc m] (frame0 L B R T ps ix)"
  have m: "m < n" "Suc m < n" "1 \<le> Suc m" "1 \<le> n" using Suc.prems by auto
  note IH = Suc.IH[OF m(1), folded st_def]
  have upt: "[1..<Suc (Suc m)] = [1..<Suc m] @ [Suc m]" by simp
  have lenps: "length (positions st) = length ps + m * (n - 1)"
    using IH by (simp add: length_concat_const[where c = "n - 1"])
  have buf: "topIndicesBuffer st = [] \<or> length (topIndicesBuffer st) = Suc n"
    using IH m by (cases "m = 0") (simp_all add: length_rowIndices)
  have top: "topIndices st = Ref_topIndicesBuffer" using IH by simp
  have bot: "Suc m = 1 \<longrightarrow> bottomIndices st = Ref_bottomLeftToRight" using IH by simp
  have newrow: "js_get (leftBottomToTop st) (int (Suc m))
                 # map Some [length (positions st)..<length (positions st) + (n - 1)]
                 @ [js_get (rightBottomToTop st) (int (Suc m))]
               = rowIndices L R n (length ps) (Suc m)"
    using IH unfolding lenps rowIndices_def by (simp add: add.commute add.left_commute)
  have grid_top: "faceGrid L B R T n (length ps) (Suc m) = rowIndices L R n (length ps) (Suc m)"
    using m by (simp add: faceGrid_def)
  have grid_bot: "(if Suc m \<noteq> 1 then topIndicesBuffer st else bottomLeftToRight st)
                  = faceGrid L B R T n (length ps) m"
    using IH m by (simp add: faceGrid_def)
  show ?case
    unfolding upt fold_append comp_def st_def[symmetric]
    unfolding fold_simps row_inner[OF m(3,2) buf top bot] newrow grid_bot
    using IH by (simp add: grid_top)
qed

lemma addFaceTriangles_frame_closed:
  assumes n: "1 \<le> n"
    and b0: "js_get B 0 = Some a" "a < length ps"
    and b1: "js_get B (int (length B) - 1) = Some b" "b < length ps"
    and t0: "js_get T 0 = Some c" "c < length ps"
  shows "\<exists>st. addFaceTriangles_frame L B R T (int n) ps ix = Inr st
           \<and> leftBottomToTop st = L \<and> bottomLeftToRight st = B \<and> rightBottomToTop st = R
           \<and> topLeftToRight st = T
           \<and> positions st = ps @ facePoints (ps ! a) (subtract (ps ! b) (ps ! a))
                                    (subtract (ps ! c) (ps ! a)) (int n)
           \<and> indices st = ix @ faceTriangles L B R T n (length ps)"
proof -
  define p0 where "p0 = ps ! a"
  define vx where "vx = subtract (ps ! b) (ps ! a)"
  define vy where "vy = subtract (ps ! c) (ps ! a)"
  define st where "st = fold (addFaceTriangles_row p0 vx vy (int n)) [1..<Suc (n - 1)] (frame0 L B R T ps ix)"
  have k: "n - 1 < n" "Suc (n - 1) = n" using n by auto
  note I = rows_inner[OF k(1), of p0 vx vy L B R T ps ix, folded st_def, unfolded k(2)]
  have upt: "[1..<Suc n] = [1..<Suc (n - 1)] @ [n]" using n by (simp add: k(2))
  have run: "addFaceTriangles_frame L B R T (int n) ps ix
             = Inr (addFaceTriangles_row p0 vx vy (int n) n st)"
    unfolding addFaceTriangles_frame_def Let_def st_def frame0_def p0_def vx_def vy_def
    using b0 b1 t0 upt by (simp add: position_at_def)
  have bot: "n = 1 \<longrightarrow> bottomIndices st = Ref_bottomLeftToRight" using I by auto
  have grid_bot: "(if n \<noteq> 1 then topIndicesBuffer st else bottomLeftToRight st)
                  = faceGrid L B R T n (length ps) (n - 1)"
    using I n by (auto simp: faceGrid_def)
  have grid_top: "faceGrid L B R T n (length ps) n = T"
    using n by (simp add: faceGrid_def)
  have tri: "faceTriangles L B R T n (length ps)
             = concat (map (\<lambda>j. rowTriangles (faceGrid L B R T n (length ps) (j - 1))
                                  (faceGrid L B R T n (length ps) j) n) [1..<Suc (n - 1)])
               @ rowTriangles (faceGrid L B R T n (length ps) (n - 1)) (faceGrid L B R T n (length ps) n) n"
    unfolding faceTriangles_def upt k(2) by simp
  have args: "leftBottomToTop st = L" "bottomLeftToRight st = B" "rightBottomToTop st = R"
      "topLeftToRight st = T"
    using I by simp_all
  have pos: "positions st = ps @ facePoints p0 vx vy (int n)"
    using I by (simp add: facePoints_def)
  have ind: "indices st = ix @ concat (map (\<lambda>j. rowTriangles (faceGrid L B R T n (length ps) (j - 1))
                                  (faceGrid L B R T n (length ps) j) n) [1..<n])"
    using I by simp
  show ?thesis
    unfolding run row_last[OF bot n] grid_bot tri k(2)
    by (simp add: args pos ind grid_top p0_def vx_def vy_def)
qed

lemma length_cubeCorners [simp]: "length cubeCorners = 8"
  by (simp add: cubeCorners_def)

lemma length_edgePoints [simp]: "length (edgePoints p q N) = nat N - 1"
  by (simp add: edgePoints_def)

lemma length_cubeEdgePoints [simp]: "length (cubeEdgePoints N a b) = interior N"
  by (simp add: cubeEdgePoints_def interior_def)

lemma length_facePoints [simp]: "length (facePoints p vx vy N) = (nat N - 1) * (nat N - 1)"
  by (simp add: facePoints_def length_concat_const[where c = "nat N - 1"])

lemma length_cubeFacePoints [simp]: "length (cubeFacePoints N a b c) = interior N * interior N"
  by (simp add: cubeFacePoints_def interior_def)

lemma length_edgeIndices [simp]: "length (edgeIndices a b N len) = Suc (Suc (interior N))"
  by (simp add: edgeIndices_def interior_def)

lemma js_get_last: "js_get (xs @ [v]) (int (length xs)) = v"
  by (simp add: js_get_def)

lemma js_get_first: "js_get (v # xs) 0 = v"
  by (simp add: js_get_def)

lemma edge_first [simp]: "js_get (edgeIndices a b N len) 0 = Some a"
  by (simp add: edgeIndices_def js_get_first)

lemma edge_last [simp]: "js_get (edgeIndices a b N len) (1 + int (interior N)) = Some b"
  using js_get_last[of "Some a # map Some [len..<len + (nat N - 1)]" "Some b"]
  by (simp add: edgeIndices_def interior_def)

lemma edge_rev_first [simp]: "js_get (rev (edgeIndices a b N len)) 0 = Some b"
  by (simp add: edgeIndices_def js_get_first)

lemma edge_rev_last [simp]: "js_get (rev (edgeIndices a b N len)) (1 + int (interior N)) = Some a"
  using js_get_last[of "Some b # rev (map Some [len..<len + (nat N - 1)])" "Some a"]
  by (simp add: edgeIndices_def interior_def)

lemma edge_on_cube:
  assumes "1 \<le> N" "a < 8" "b < 8"
  shows "addEdgePositions a b N (cubeCorners @ rest)
           = Inr (edgeIndices a b N (8 + length rest), cubeCorners @ rest @ cubeEdgePoints N a b)"
  using addEdgePositions_closed[OF assms(1), of a "cubeCorners @ rest" b] assms(2,3)
  by (simp add: nth_append cubeEdgePoints_def)

lemma face_on_cube:
  assumes "1 \<le> N"
    and "\<exists>a<8. js_get B 0 = Some a"
    and "\<exists>b<8. js_get B (int (length B) - 1) = Some b"
    and "\<exists>c<8. js_get T 0 = Some c"
  shows "addFaceTriangles L B R T N (cubeCorners @ rest) ix
           = Inr (cubeCorners @ rest
                    @ cubeFacePoints N (the (js_get B 0)) (the (js_get B (int (length B) - 1)))
                        (the (js_get T 0)),
                  ix @ faceTriangles L B R T (nat N) (8 + length rest))"
proof -
  obtain a b c where abc: "a < 8" "js_get B 0 = Some a" "b < 8"
      "js_get B (int (length B) - 1) = Some b" "c < 8" "js_get T 0 = Some c"
    using assms(2-4) by blast
  have n: "1 \<le> nat N" "int (nat N) = N" using assms(1) by simp_all
  have lt: "a < length (cubeCorners @ rest)" "b < length (cubeCorners @ rest)"
      "c < length (cubeCorners @ rest)" using abc by simp_all
  from addFaceTriangles_frame_closed[OF n(1) abc(2) lt(1) abc(4) lt(2) abc(6) lt(3), of L R ix]
  show ?thesis
    unfolding n(2) addFaceTriangles_def using abc
    by (auto simp: nth_append cubeFacePoints_def)
qed

lemma corners_lit:
  "[\<lparr>x = -1, y = 0, z = -1\<rparr>, \<lparr>x = 0, y = -1, z = -1\<rparr>,
      \<lparr>x = 1, y = 0, z = -1\<rparr>, \<lparr>x = 0, y = 1, z = -1\<rparr>,
      \<lparr>x = -1, y = 0, z = 1\<rparr>, \<lparr>x = 0, y = -1, z = 1\<rparr>,
      \<lparr>x = 1, y = 0, z = 1\<rparr>, \<lparr>x = 0, y = 1, z = 1\<rparr>] = cubeCorners @ []"
  by (simp add: cubeCorners_def)

lemmas edge_on_cube0 = edge_on_cube[where rest = "[]", simplified]

lemma cubeTopology_closed:
  assumes "1 \<le> N"
  shows "cubeTopology N = Inr (cubePositions N, cubeIndices N)"
  unfolding cubeTopology_def Let_def append_Nil append_Cons corners_lit
  using assms
  apply (simp add: edge_on_cube edge_on_cube0 andThen_def face_on_cube)
  apply (simp add: cubePositions_def cubeIndices_def cubeEdge_def cubeFace_def Let_def add_ac)
  done

lemma edge_loop_appends:
  "\<exists>a' new. fold (addEdgePositions_step p0 d N) is (a, ps) = (a', ps @ new)"
proof (induction "is" arbitrary: a ps)
  case Nil
  then show ?case by simp
next
  case (Cons i "is")
  obtain a' new where "fold (addEdgePositions_step p0 d N) is
      (js_set a (int i) (Some (length ps)),
       ps @ [add p0 (multiplyByScalar d (real i / real_of_int N))])
      = (a', (ps @ [add p0 (multiplyByScalar d (real i / real_of_int N))]) @ new)"
    using Cons.IH by blast
  moreover have "addEdgePositions_step p0 d N i (a, ps)
      = (js_set a (int i) (Some (length ps)),
         ps @ [add p0 (multiplyByScalar d (real i / real_of_int N))])"
    by (simp add: addEdgePositions_step_def Let_def)
  ultimately have "fold (addEdgePositions_step p0 d N) (i # is) (a, ps)
      = (a', ps @ (add p0 (multiplyByScalar d (real i / real_of_int N)) # new))"
    by simp
  then show ?case by blast
qed

lemma addEdgePositions_appends:
  assumes "addEdgePositions i0 i1 N ps = Inr (e, ps')"
  shows "\<exists>new. ps' = ps @ new"
proof -
  obtain p1 p0 where p: "position_at ps (Some i1) = Some p1" "position_at ps (Some i0) = Some p0"
    using assms by (auto simp: addEdgePositions_def Let_def split: option.splits)
  obtain a' new where
    "fold (addEdgePositions_step p0 (subtract p1 p0) N) [1..<nat N]
       (js_set (js_set [] 0 (Some i0)) (2 + (N - 1) - 1) (Some i1), ps) = (a', ps @ new)"
    using edge_loop_appends by blast
  then show ?thesis using assms p by (auto simp: addEdgePositions_def Let_def)
qed

lemma extends_refl: "extends st st"
  by (simp add: extends_def)

lemma extends_trans: "extends a b \<Longrightarrow> extends b c \<Longrightarrow> extends a c"
  by (auto simp: extends_def)

lemma extends_fold:
  "(\<And>i st. extends st (f i st)) \<Longrightarrow> extends st (fold f is st)"
proof (induction "is" arbitrary: st)
  case Nil
  then show ?case by (simp add: extends_refl)
next
  case (Cons i "is")
  have "extends st (f i st)" by (rule Cons.prems)
  moreover have "extends (f i st) (fold f is (f i st))" using Cons.IH Cons.prems by blast
  ultimately show ?case using extends_trans by simp
qed

lemma extends_point: "extends st (addFaceTriangles_point p0 vx oy N i st)"
  by (simp add: addFaceTriangles_point_def Let_def extends_def)

lemma extends_cell: "extends st (addFaceTriangles_cell k st)"
  by (simp add: cell_step extends_def)

lemma extends_row: "extends st (addFaceTriangles_row p0 vx vy N j st)"
proof -
  have upd: "extends a b \<Longrightarrow> extends a (fold addFaceTriangles_cell ks b)" for a b ks
    using extends_trans extends_fold[of addFaceTriangles_cell, OF extends_cell] by blast
  have pts: "extends a b \<Longrightarrow> extends a (fold (addFaceTriangles_point p0 vx oy N) ks b)" for a b ks oy
    using extends_trans extends_fold[of "addFaceTriangles_point p0 vx oy N", OF extends_point]
    by blast
  define s1 where "s1 = (if j \<noteq> 1
                     then st\<lparr>bottomIndicesBuffer := topIndicesBuffer st,
                             bottomIndices := Ref_bottomIndicesBuffer\<rparr>
                     else st)"
  define s2 where "s2 = s1\<lparr>topIndicesBuffer :=
                         js_set (topIndicesBuffer s1) 0 (js_get (leftBottomToTop s1) (int j))\<rparr>"
  define s3 where "s3 = s2\<lparr>topIndicesBuffer :=
                         js_set (topIndicesBuffer s2) N (js_get (rightBottomToTop s2) (int j))\<rparr>"
  define s4 where "s4 = fold (addFaceTriangles_point p0 vx
                                (multiplyByScalar vy (real j / real_of_int N)) N) [1..<nat N] s3"
  define t1 where "t1 = (if j \<noteq> 1 then st\<lparr>bottomIndices := Ref_topIndicesBuffer\<rparr> else st)"
  define t2 where "t2 = t1\<lparr>topIndices := Ref_topLeftToRight\<rparr>"
  have "extends st s1" by (simp add: s1_def extends_def)
  then have "extends st s2" by (simp add: s2_def extends_def)
  then have "extends st s3" by (simp add: s3_def extends_def)
  then have e4: "extends st s4" unfolding s4_def by (rule pts)
  have "extends st t1" by (simp add: t1_def extends_def)
  then have e2: "extends st t2" by (simp add: t2_def extends_def)
  have row: "addFaceTriangles_row p0 vx vy N j st
             = fold addFaceTriangles_cell [0..<nat N] (if int j \<noteq> N then s4 else t2)"
    unfolding addFaceTriangles_row_def Let_def s4_def s3_def s2_def s1_def t2_def t1_def ..
  show ?thesis unfolding row using e4 e2 by (auto intro: upd)
qed

lemma addFaceTriangles_frame_extends:
  assumes "addFaceTriangles_frame L B R T N ps ix = Inr st"
  shows "leftBottomToTop st = L \<and> bottomLeftToRight st = B \<and> rightBottomToTop st = R
         \<and> topLeftToRight st = T \<and> (\<exists>new. positions st = ps @ new)"
proof -
  obtain p0 vx vy where
    st: "st = fold (addFaceTriangles_row p0 vx vy N) [1..<nat N + 1] (frame0 L B R T ps ix)"
    using assms
    by (auto simp: addFaceTriangles_frame_def Let_def frame0_def split: option.splits)
  have "extends (frame0 L B R T ps ix) st"
    unfolding st by (rule extends_fold) (rule extends_row)
  then show ?thesis by (simp add: extends_def frame0_def)
qed

lemma length_flatten [simp]: "length (flatten ps) = 3 * length ps"
  by (induction ps) (simp_all add: flatten_def)

lemma flatten_snoc: "flatten (ps @ [p]) = flatten ps @ [Some (x p), Some (y p), Some (z p)]"
  by (simp add: flatten_def)

lemma three_sets:
  assumes "length G = n"
  shows "js_set (js_set (js_set (G @ u0 # u1 # u2 # H) (int n) a) (int n + 1) b) (int n + 1 + 1) c
         = (G @ [a, b, c]) @ H"
proof -
  have 1: "js_set (G @ u0 # u1 # u2 # H) (int n) a = G @ a # u1 # u2 # H"
    using js_set_at_length[of G u0 "u1 # u2 # H" a] assms by simp
  have 2: "js_set (G @ a # u1 # u2 # H) (int n + 1) b = G @ a # b # u2 # H"
    using js_set_at_length[of "G @ [a]" u1 "u2 # H" b] assms by (simp add: add.commute)
  have 3: "js_set (G @ a # b # u2 # H) (int n + 1 + 1) c = G @ a # b # c # H"
    using js_set_at_length[of "G @ [a, b]" u2 H c] assms by (simp add: add.commute)
  show ?thesis unfolding 1 2 3 by simp
qed

lemma replicate3: "k < n \<Longrightarrow>
    replicate (3 * (n - k)) (None::'a option) = None # None # None # replicate (3 * (n - Suc k)) None"
proof -
  assume "k < n"
  then obtain d where d: "n - k = Suc d" "n - Suc k = d" by (cases "n - k") auto
  have "3 * Suc d = Suc (Suc (Suc (3 * d)))" by simp
  then show ?thesis unfolding d by (simp only: replicate_Suc)
qed

lemma project_loop:
  assumes "k \<le> length ps"
  shows "fold (project_step rs) [0..<k] (ps, replicate (3 * length ps) None, 0)
         = (map (project rs) (take k ps) @ drop k ps,
            flatten (map (project rs) (take k ps)) @ replicate (3 * (length ps - k)) None,
            int (3 * k))"
  using assms
proof (induction k)
  case 0
  then show ?case by (simp add: flatten_def)
next
  case (Suc k)
  then have k: "k \<le> length ps" "k < length ps" by auto
  define A where "A = map (project rs) (take k ps)"
  define G where "G = flatten A"
  define H where "H = replicate (3 * (length ps - Suc k)) (None::real option)"
  define q where "q = project rs (ps ! k)"
  have lenA: "length A = k" using k by (simp add: A_def)
  have lenG: "length G = 3 * k" by (simp add: G_def lenA)
  have dropk: "drop k ps = ps ! k # drop (Suc k) ps" using k by (simp add: Cons_nth_drop_Suc)
  have takek: "take (Suc k) ps = take k ps @ [ps ! k]" using k by (simp add: take_Suc_conv_app_nth)
  have pos: "(A @ ps ! k # drop (Suc k) ps)[k := normalize (ps ! k)] = A @ normalize (ps ! k) # drop (Suc k) ps"
    using list_update_length[of A "ps ! k" "drop (Suc k) ps"] lenA by simp
  have pos2: "(A @ normalize (ps ! k) # drop (Suc k) ps)[k := q] = A @ q # drop (Suc k) ps"
    using list_update_length[of A "normalize (ps ! k)" "drop (Suc k) ps"] lenA by simp
  have nth1: "(A @ ps ! k # drop (Suc k) ps) ! k = ps ! k"
    using nth_append_length[of A] lenA by simp
  have nth2: "(A @ normalize (ps ! k) # drop (Suc k) ps) ! k = normalize (ps ! k)"
    using nth_append_length[of A] lenA by simp
  have nth3: "(A @ q # drop (Suc k) ps) ! k = q"
    using nth_append_length[of A] lenA by simp
  have sets: "js_set (js_set (js_set (G @ None # None # None # H) (int (3 * k)) a) (int (3 * k) + 1) b)
                (int (3 * k) + 1 + 1) c = (G @ [a, b, c]) @ H" for a b c
    by (rule three_sets[OF lenG])
  have step: "project_step rs k (A @ ps ! k # drop (Suc k) ps, G @ None # None # None # H, int (3 * k))
              = (A @ q # drop (Suc k) ps, (G @ [Some (x q), Some (y q), Some (z q)]) @ H, int (3 * k) + 1 + 1 + 1)"
    unfolding project_step_def Let_def prod.case pos nth1 nth2
      project_def[symmetric] q_def[symmetric] pos2 nth3 sets ..
  have "fold (project_step rs) [0..<Suc k] (ps, replicate (3 * length ps) None, 0)
        = project_step rs k (A @ ps ! k # drop (Suc k) ps, G @ None # None # None # H, int (3 * k))"
    unfolding upt_Suc_append[OF le0] fold_append comp_def Suc.IH[OF k(1)]
    by (simp add: A_def G_def H_def replicate3[OF k(2)] dropk)
  also have "\<dots> = (map (project rs) (take (Suc k) ps) @ drop (Suc k) ps,
            flatten (map (project rs) (take (Suc k) ps)) @ replicate (3 * (length ps - Suc k)) None,
            int (3 * Suc k))"
    unfolding step takek by (simp add: A_def G_def H_def q_def flatten_snoc)
  finally show ?case .
qed

lemma project_all:
  "fold (project_step rs) [0..<length ps] (ps, replicate (length ps * 3) None, 0)
   = (map (project rs) ps, flatten (map (project rs) ps), int (3 * length ps))"
  using project_loop[of "length ps" ps rs] by (simp add: mult.commute)

lemma normal_loop:
  assumes "k \<le> length ps"
  shows "fold (normal_step e ps) [0..<k] (replicate (3 * length ps) None, 0)
         = (flatten (map (geodeticSurfaceNormal e) (take k ps)) @ replicate (3 * (length ps - k)) None,
            int (3 * k))"
  using assms
proof (induction k)
  case 0
  then show ?case by (simp add: flatten_def)
next
  case (Suc k)
  then have k: "k \<le> length ps" "k < length ps" by auto
  define G where "G = flatten (map (geodeticSurfaceNormal e) (take k ps))"
  define H where "H = replicate (3 * (length ps - Suc k)) (None::real option)"
  define q where "q = geodeticSurfaceNormal e (ps ! k)"
  have lenG: "length G = 3 * k" using k by (simp add: G_def)
  have takek: "take (Suc k) ps = take k ps @ [ps ! k]" using k by (simp add: take_Suc_conv_app_nth)
  have sets: "js_set (js_set (js_set (G @ None # None # None # H) (int (3 * k)) a) (int (3 * k) + 1) b)
                (int (3 * k) + 1 + 1) c = (G @ [a, b, c]) @ H" for a b c
    by (rule three_sets[OF lenG])
  have step: "normal_step e ps k (G @ None # None # None # H, int (3 * k))
              = ((G @ [Some (x q), Some (y q), Some (z q)]) @ H, int (3 * k) + 1 + 1 + 1)"
    unfolding normal_step_def Let_def prod.case q_def[symmetric] sets ..
  have "fold (normal_step e ps) [0..<Suc k] (replicate (3 * length ps) None, 0)
        = normal_step e ps k (G @ None # None # None # H, int (3 * k))"
    unfolding upt_Suc_append[OF le0] fold_append comp_def Suc.IH[OF k(1)]
    by (simp add: G_def H_def replicate3[OF k(2)])
  also have "\<dots> = (flatten (map (geodeticSurfaceNormal e) (take (Suc k) ps))
                      @ replicate (3 * (length ps - Suc k)) None, int (3 * Suc k))"
    unfolding step takek by (simp add: G_def H_def q_def flatten_snoc)
  finally show ?case .
qed

lemma normal_all:
  "fold (normal_step e ps) [0..<length ps] (replicate (length ps * 3) None, 0)
   = (flatten (map (geodeticSurfaceNormal e) ps), int (3 * length ps))"
  using normal_loop[of "length ps" ps e] by (simp add: mult.commute)

lemma EllipsoidGeometry_run_invalid:
  "partitionCount opts \<le> 0 \<Longrightarrow> EllipsoidGeometry_run opts = Inl DeveloperError"
  by (simp add: EllipsoidGeometry_run_def partitionCount_def Let_def)

lemma normal_all_len:
  "length ps = n \<Longrightarrow>
   fold (normal_step e ps) [0..<n] (replicate (n * 3) None, 0)
   = (flatten (map (geodeticSurfaceNormal e) ps), int (3 * n))"
  using normal_all[of e ps] by simp

lemma EllipsoidGeometry_run_closed:
  assumes "1 \<le> partitionCount opts"
  shows "EllipsoidGeometry_run opts
         = Inr (\<lparr>attributes = finalAttributes opts,
                 indexLists = [cubeIndices (partitionCount opts)]\<rparr>, finalPositions opts)"
proof -
  have pos: "\<not> partitionCount opts \<le> 0" using assms by simp
  have attr: "finalAttributes opts
        = (if normal (chosenFormat opts)
           then (if position (chosenFormat opts)
                 then [''position'' \<mapsto> flatten (finalPositions opts)] else Map.empty)
                (''normal'' \<mapsto> flatten (map (geodeticSurfaceNormal (chosenEllipsoid opts))
                                          (finalPositions opts)))
           else (if position (chosenFormat opts)
                 then [''position'' \<mapsto> flatten (finalPositions opts)] else Map.empty))"
    by (rule ext) (simp add: finalAttributes_def)
  show ?thesis
    unfolding EllipsoidGeometry_run_def Let_def
      partitionCount_def[symmetric] chosenEllipsoid_def[symmetric] chosenFormat_def[symmetric]
      if_not_P[OF pos] cubeTopology_closed[OF assms] andThen_def sum.case prod.case
      project_all attr
    by (simp add: finalPositions_def normal_all_len)
qed

lemma length_cellTriangles [simp]: "length (cellTriangles b t k) = 6"
  by (simp add: cellTriangles_def)

lemma length_rowTriangles [simp]: "length (rowTriangles b t n) = n * 6"
  by (simp add: rowTriangles_def length_concat_const[where c = 6])

lemma length_faceTriangles [simp]: "length (faceTriangles L B R T n len) = n * (n * 6)"
  by (simp add: faceTriangles_def length_concat_const[where c = "n * 6"])

lemma length_cubePositions:
  "length (cubePositions N) = 8 + 12 * interior N + 6 * (interior N * interior N)"
  by (simp add: cubePositions_def)

lemma length_cubeIndices: "length (cubeIndices N) = 36 * (nat N * nat N)"
  by (simp add: cubeIndices_def cubeFace_def Let_def)

lemma length_finalPositions: "length (finalPositions opts) = length (cubePositions (partitionCount opts))"
  by (simp add: finalPositions_def)

lemma int_interior: "1 \<le> N \<Longrightarrow> int (interior N) = N - 1"
  by (simp add: interior_def)

lemma normalize_x_sq:
  "(x (normalize c))\<^sup>2 = (x c)\<^sup>2 / (x c * x c + y c * y c + z c * z c)"
proof -
  have "0 \<le> x c * x c + y c * y c + z c * z c" by simp
  then have "(magnitude c)\<^sup>2 = x c * x c + y c * y c + z c * z c"
    by (simp add: magnitude_def)
  then show ?thesis by (simp add: normalize_def power_divide)
qed

lemma normal_cube_corner:
  "(x (geodeticSurfaceNormal squashed \<lparr>x = -1, y = 0, z = -1\<rparr>))\<^sup>2 = 16 / 17"
  unfolding geodeticSurfaceNormal_def normalize_x_sq
  by (simp add: multiplyComponents_def oneOverRadiiSquared_def squashed_def power2_eq_square)

lemma normal_projected_corner:
  "(x (geodeticSurfaceNormal squashed
         (project (getRadii squashed) \<lparr>x = -1, y = 0, z = -1\<rparr>)))\<^sup>2 = 4 / 5"
proof -
  have m: "(magnitude \<lparr>x = -1, y = 0, z = -1\<rparr>)\<^sup>2 = 2"
    by (simp add: magnitude_def)
  have m0: "magnitude \<lparr>x = -1, y = 0, z = -1\<rparr> \<noteq> 0"
    using m by auto
  define r where "r = magnitude \<lparr>x = -1, y = 0, z = -1\<rparr>"
  have r: "r * r = 2" "r \<noteq> 0" using m m0 by (simp_all add: r_def power2_eq_square)
  have p: "project (getRadii squashed) \<lparr>x = -1, y = 0, z = -1\<rparr>
           = \<lparr>x = - 1 / r, y = 0, z = - 2 / r\<rparr>"
    by (simp add: project_def normalize_def multiplyComponents_def getRadii_def squashed_def r_def)
  have rr: "1 / (r * r) = 1 / 2" using r by simp
  show ?thesis
    unfolding p geodeticSurfaceNormal_def normalize_x_sq
    using r
    by (simp add: multiplyComponents_def oneOverRadiiSquared_def squashed_def power2_eq_square
          field_simps)
qed

lemma normals_differ:
  "x (geodeticSurfaceNormal squashed (project (getRadii squashed) \<lparr>x = -1, y = 0, z = -1\<rparr>))
   \<noteq> x (geodeticSurfaceNormal squashed \<lparr>x = -1, y = 0, z = -1\<rparr>)"
proof
  assume "x (geodeticSurfaceNormal squashed (project (getRadii squashed) \<lparr>x = -1, y = 0, z = -1\<rparr>))
   = x (geodeticSurfaceNormal squashed \<lparr>x = -1, y = 0, z = -1\<rparr>)"
  then have "(4::real) / 5 = 16 / 17"
    using normal_cube_corner normal_projected_corner by simp
  then show False by simp
qed

lemma upt6: "[0..<6] = [0, 1, 2, 3, 4, 5]"
  by (simp add: upt_rec)

lemma cubeIndices_rows:
  "cubeIndices N = concat (map (\<lambda>f. concat (map (cubeRow N f) [1..<Suc (nat N)])) [0..<6])"
  unfolding upt6
  by (simp add: cubeIndices_def cubeFace_def faceTriangles_def cubeRow_def[abs_def] cubeFaces_def
        positionsBeforeFace_def Let_def del: upt_Suc)

lemma validRow_get: "validRow n bound row \<Longrightarrow> k \<le> n \<Longrightarrow> \<exists>v<bound. js_get row (int k) = Some v"
  by (auto simp: validRow_def js_get_def)

lemma validRow_mono: "validRow n b row \<Longrightarrow> b \<le> b' \<Longrightarrow> validRow n b' row"
  by (fastforce simp: validRow_def)

lemma validRow_rev: "validRow n b row \<Longrightarrow> validRow n b (rev row)"
  by (simp add: validRow_def)

lemma validRow_edge:
  assumes "1 \<le> N" "a < 8" "b < 8" "k < 12"
  shows "validRow (nat N) (8 + 12 * interior N) (cubeEdge N k a b)"
proof -
  have "8 + k * interior N + interior N \<le> 8 + 12 * interior N"
  proof -
    have "(k + 1) * interior N \<le> 12 * interior N" using assms(4) by (intro mult_right_mono) simp_all
    then show ?thesis by (simp add: algebra_simps)
  qed
  then show ?thesis
    using assms(1-3)
    by (auto simp: validRow_def cubeEdge_def edgeIndices_def interior_def)
qed

lemma validRow_rowIndices:
  assumes L: "validRow n len L" and R: "validRow n len R" and j: "1 \<le> j" "j < n"
  shows "validRow n (len + j * (n - 1)) (rowIndices L R n len j)"
proof -
  obtain u where u: "u < len" "js_get L (int j) = Some u"
    using validRow_get[OF L, of j] j by auto
  obtain w where w: "w < len" "js_get R (int j) = Some w"
    using validRow_get[OF R, of j] j by auto
  have "length (rowIndices L R n len j) = Suc n"
    using length_rowIndices[of j n] j by simp
  then show ?thesis
    using u w by (auto simp: validRow_def rowIndices_def)
qed

lemma validRow_faceGrid:
  assumes n: "1 \<le> n"
    and rows: "validRow n len L" "validRow n len B" "validRow n len R" "validRow n len T"
    and j: "j \<le> n"
  shows "validRow n (len + min j (n - 1) * (n - 1)) (faceGrid L B R T n len j)"
proof -
  consider "j = 0" | "j = n" "j \<noteq> 0" | "1 \<le> j" "j < n" using j by linarith
  then show ?thesis
  proof cases
    case 1
    then show ?thesis using rows(2) by (simp add: faceGrid_def)
  next
    case 2
    then show ?thesis
      using validRow_mono[OF rows(4), of "len + min j (n - 1) * (n - 1)"] by (simp add: faceGrid_def)
  next
    case 3
    then have "min j (n - 1) = j" by simp
    then show ?thesis
      using validRow_rowIndices[OF rows(1,3) 3] 3 by (simp add: faceGrid_def)
  qed
qed

lemma rowTriangles_valid:
  assumes "validRow n bound b" "validRow n bound t"
  shows "\<forall>i\<in>set (rowTriangles b t n). \<exists>k<bound. i = Some k"
proof -
  have "\<exists>v<bound. i = Some v" if "k < n" "i \<in> set (cellTriangles b t k)" for k i
  proof -
    have "k \<le> n" "Suc k \<le> n" using that(1) by simp_all
    then have "\<exists>v<bound. js_get b (int k) = Some v" "\<exists>v<bound. js_get b (int (Suc k)) = Some v"
        "\<exists>v<bound. js_get t (int k) = Some v" "\<exists>v<bound. js_get t (int (Suc k)) = Some v"
      using validRow_get[OF assms(1)] validRow_get[OF assms(2)] by blast+
    then show ?thesis using that(2) by (auto simp: cellTriangles_def add.commute)
  qed
  then show ?thesis by (auto simp: rowTriangles_def)
qed

lemma face_row_valid:
  assumes n: "1 \<le> n"
    and rows: "validRow n len L" "validRow n len B" "validRow n len R" "validRow n len T"
    and j: "1 \<le> j" "j \<le> n"
  shows "\<forall>i\<in>set (rowTriangles (faceGrid L B R T n len (j - 1)) (faceGrid L B R T n len j) n).
           \<exists>k<len + min j (n - 1) * (n - 1). i = Some k"
proof -
  have top: "validRow n (len + min j (n - 1) * (n - 1)) (faceGrid L B R T n len j)"
    by (rule validRow_faceGrid[OF n rows j(2)])
  have "j - 1 \<le> n" using j by simp
  from validRow_faceGrid[OF n rows this]
  have bot: "validRow n (len + min j (n - 1) * (n - 1)) (faceGrid L B R T n len (j - 1))"
  proof (rule validRow_mono)
    have "min (j - 1) (n - 1) \<le> min j (n - 1)" by simp
    then show "len + min (j - 1) (n - 1) * (n - 1) \<le> len + min j (n - 1) * (n - 1)"
      by (simp add: mult_right_mono)
  qed
  show ?thesis by (rule rowTriangles_valid[OF bot top])
qed

lemma cubeFaces_valid:
  assumes "1 \<le> N" "f < 6" "cubeFaces N ! f = (L, B, R, T)"
  shows "validRow (nat N) (positionsBeforeFace N f) L \<and> validRow (nat N) (positionsBeforeFace N f) B
         \<and> validRow (nat N) (positionsBeforeFace N f) R \<and> validRow (nat N) (positionsBeforeFace N f) T"
proof -
  have le: "8 + 12 * interior N \<le> positionsBeforeFace N g" for g
    by (simp add: positionsBeforeFace_def)
  have e: "validRow (nat N) (positionsBeforeFace N g) (cubeEdge N k a b)"
    if "a < 8" "b < 8" "k < 12" for g k a b
    by (rule validRow_mono[OF validRow_edge[OF assms(1) that] le])
  note r = validRow_rev[OF e]
  have f: "f = 0 \<or> f = 1 \<or> f = 2 \<or> f = 3 \<or> f = 4 \<or> f = 5" using assms(2) by linarith
  show ?thesis
    using f assms(3) by (elim disjE) (auto simp: cubeFaces_def Let_def intro!: e r)
qed

lemma cubeRow_valid:
  assumes "1 \<le> N" "f < 6" "1 \<le> j" "j \<le> nat N"
  shows "\<forall>i\<in>set (cubeRow N f j). \<exists>k<positionsAfterRow N f j. i = Some k"
proof -
  obtain L B R T where c: "cubeFaces N ! f = (L, B, R, T)" by (cases "cubeFaces N ! f") auto
  have n: "1 \<le> nat N" using assms(1) by simp
  note v = cubeFaces_valid[OF assms(1,2) c]
  from face_row_valid[OF n _ _ _ _ assms(3,4), of "positionsBeforeFace N f" L B R T] v
  show ?thesis by (simp add: cubeRow_def c positionsAfterRow_def interior_def)
qed

lemma positionsAfterRow_le: "f < 6 \<Longrightarrow> positionsAfterRow N f j \<le> length (cubePositions N)"
proof -
  assume "f < 6"
  then have "f + 1 \<le> 6" by simp
  define mm where "mm = interior N * interior N"
  have "(f + 1) * mm \<le> 6 * mm"
    using \<open>f + 1 \<le> 6\<close> by (rule mult_right_mono) simp
  then have a: "f * mm + mm \<le> 6 * mm" by (simp add: algebra_simps)
  have b: "min j (interior N) * interior N \<le> mm"
    unfolding mm_def by (rule mult_right_mono) simp_all
  have "f * mm + min j (interior N) * interior N \<le> 6 * mm" using a b by linarith
  then show ?thesis
    unfolding positionsAfterRow_def positionsBeforeFace_def length_cubePositions mm_def by simp
qed

lemma cubeIndices_valid:
  assumes "1 \<le> N"
  shows "\<forall>i\<in>set (cubeIndices N). \<exists>k<length (cubePositions N). i = Some k"
proof
  fix i assume "i \<in> set (cubeIndices N)"
  then obtain f j where fj: "f < 6" "1 \<le> j" "j \<le> nat N" "i \<in> set (cubeRow N f j)"
    unfolding cubeIndices_rows by auto
  then obtain k where "k < positionsAfterRow N f j" "i = Some k"
    using cubeRow_valid[OF assms fj(1-3)] by blast
  then show "\<exists>k<length (cubePositions N). i = Some k"
    using positionsAfterRow_le[OF fj(1), of N j] by auto
qed





















lemma rounded_identity:
  "add_rounded (\<lambda>v. v) = add" "subtract_rounded (\<lambda>v. v) = subtract"
  "multiplyByScalar_rounded (\<lambda>v. v) = multiplyByScalar"
  by (intro ext, simp add: add_rounded_def add_def subtract_rounded_def subtract_def
        multiplyByScalar_rounded_def multiplyByScalar_def)+

lemma addEdgePositions_rounded_identity:
  "addEdgePositions_rounded (\<lambda>v. v) i0 i1 N ps = addEdgePositions i0 i1 N ps"
proof -
  have step: "addEdgePositions_rounded_step (\<lambda>v. v) p d M = addEdgePositions_step p d M" for p d M
    by (intro ext) (simp add: addEdgePositions_rounded_step_def addEdgePositions_step_def
          rounded_identity)
  show ?thesis
    unfolding addEdgePositions_rounded_def addEdgePositions_def step rounded_identity ..
qed

lemma rounded_edge_loop:
  assumes "k < n"
  shows "fold (addEdgePositions_rounded_step fl p0 d N) [1..<Suc k]
           (Some i0 # replicate (n - 1) None @ [Some i1], ps)
         = (Some i0 # map Some [length ps..<length ps + k] @ replicate (n - Suc k) None @ [Some i1],
            ps @ map (\<lambda>i. add_rounded fl p0
                             (multiplyByScalar_rounded fl d (fl (real i / real_of_int N))))
                   [1..<Suc k])"
  using assms
proof (induction k)
  case 0
  then show ?case by simp
next
  case (Suc k)
  then have k: "k < n" "Suc k < n" by auto
  define A where "A = Some i0 # map Some [length ps..<length ps + k]"
  define C where "C = replicate (n - Suc (Suc k)) (None::nat option) @ [Some i1]"
  define f where "f = (\<lambda>i. add_rounded fl p0
                             (multiplyByScalar_rounded fl d (fl (real i / real_of_int N))))"
  define M where "M = map f [1..<Suc k]"
  have upt: "[1..<Suc (Suc k)] = [1..<Suc k] @ [Suc k]" by simp
  have rep: "replicate (n - Suc k) (None::nat option) = None # replicate (n - Suc (Suc k)) None"
    using k by (cases "n - Suc k") auto
  have lenA: "length A = Suc k" by (simp add: A_def)
  have before: "Some i0 # map Some [length ps..<length ps + k] @ replicate (n - Suc k) None @ [Some i1]
                 = A @ None # C"
    by (simp add: A_def C_def rep del: replicate_Suc)
  have after: "A @ Some (length ps + k) # C
                 = Some i0 # map Some [length ps..<length ps + Suc k]
                     @ replicate (n - Suc (Suc k)) None @ [Some i1]"
    by (simp add: A_def C_def)
  have lenM: "length (ps @ M) = length ps + k" by (simp add: M_def)
  have set: "js_set (A @ None # C) (int (Suc k)) (Some (length ps + k)) = A @ Some (length ps + k) # C"
    using js_set_at_length[of A None C] lenA by simp
  have step: "addEdgePositions_rounded_step fl p0 d N (Suc k) (A @ None # C, ps @ M)
                = (A @ Some (length ps + k) # C, ps @ M @ [f (Suc k)])"
    unfolding addEdgePositions_rounded_step_def Let_def prod.case lenM set f_def by simp
  have maps: "M @ [f (Suc k)] = map f [1..<Suc (Suc k)]"
    unfolding M_def upt by simp
  have "fold (addEdgePositions_rounded_step fl p0 d N) [1..<Suc (Suc k)]
           (Some i0 # replicate (n - 1) None @ [Some i1], ps)
        = addEdgePositions_rounded_step fl p0 d N (Suc k) (A @ None # C, ps @ M)"
    unfolding upt fold_append comp_def Suc.IH[OF k(1)] before M_def f_def by simp
  also have "\<dots> = (A @ Some (length ps + k) # C, ps @ map f [1..<Suc (Suc k)])"
    unfolding step maps ..
  finally show ?case unfolding after f_def .
qed

lemma addEdgePositions_rounded_closed:
  assumes "1 \<le> N" "i0 < length ps" "i1 < length ps"
  shows "addEdgePositions_rounded fl i0 i1 N ps
           = Inr (edgeIndices i0 i1 N (length ps), ps @ edgePoints_rounded fl (ps ! i0) (ps ! i1) N)"
proof -
  have init: "js_set (js_set [] 0 (Some i0)) N (Some i1)
                = Some i0 # replicate (nat N - 1) None @ [Some i1]"
    using assms(1) by (simp add: js_set_def)
  have "nat N - 1 < nat N" "Suc (nat N - 1) = nat N" using assms(1) by auto
  from rounded_edge_loop[OF this(1)] this(2) show ?thesis
    using assms(2,3)
    by (simp add: addEdgePositions_rounded_def Let_def init position_at_def
          edgePoints_rounded_def edgeIndices_def)
qed

lemma edgePoints_rounded_nth:
  assumes "1 \<le> i" "i < nat N"
  shows "(ps @ edgePoints_rounded fl p q N) ! (length ps + (i - 1))
         = add_rounded fl p
             (multiplyByScalar_rounded fl (subtract_rounded fl q p) (fl (real i / real_of_int N)))"
proof -
  obtain i' where i': "i = Suc i'" using assms(1) by (cases i) auto
  then have "i' < nat N - 1" using assms(2) by simp
  then show ?thesis by (simp add: edgePoints_rounded_def i' nth_append)
qed

lemma length_edgePoints_rounded [simp]: "length (edgePoints_rounded fl p q N) = nat N - 1"
  by (simp add: edgePoints_rounded_def)

lemma pow2_powr: "pow2 e = 2 powr real_of_int e"
  by (simp add: pow2_def powr_int)

lemma pow2_pos: "0 < pow2 e"
  by (simp add: pow2_powr)

lemma binade_eq:
  assumes "pow2 e \<le> \<bar>v\<bar>" "\<bar>v\<bar> < pow2 (e + 1)"
  shows "binade v = e"
proof -
  have "0 < \<bar>v\<bar>" using assms(1) pow2_pos[of e] by linarith
  then show ?thesis
    unfolding binade_def using assms floor_log_eq_powr_iff[of "\<bar>v\<bar>" 2 e]
    by (simp add: pow2_powr)
qed

lemma double_round_eval:
  assumes "pow2 e \<le> \<bar>v\<bar>" "\<bar>v\<bar> < pow2 (e + 1)"
  shows "double_round v = of_int (roundHalfEven (v / pow2 (e - 52))) * pow2 (e - 52)"
proof -
  have "v \<noteq> 0" using assms(1) pow2_pos[of e] by auto
  then show ?thesis by (simp add: double_round_def binade_eq[OF assms])
qed

lemma double_round_values:
  "double_round 0 = 0" "double_round 1 = 1" "double_round (- 1) = - 1"
  "double_round (1 / 3) = 6004799503160661 / 2 ^ 54"
  "double_round (6004799503160661 / 2 ^ 54) = 6004799503160661 / 2 ^ 54"
  "double_round (- (6004799503160661 / 2 ^ 54)) = - (6004799503160661 / 2 ^ 54)"
  "double_round (- 1 + 6004799503160661 / 2 ^ 54) = - (6004799503160662 / 2 ^ 53)"
proof -
  show "double_round 0 = 0" by (simp add: double_round_def)
  show "double_round 1 = 1"
    by (subst double_round_eval[of 0]) (simp_all add: pow2_def roundHalfEven_def)
  show "double_round (- 1) = - 1"
    by (subst double_round_eval[of 0]) (simp_all add: pow2_def roundHalfEven_def)
  show "double_round (1 / 3) = 6004799503160661 / 2 ^ 54"
    by (subst double_round_eval[of "- 2"]) (simp_all add: pow2_def roundHalfEven_def)
  show "double_round (6004799503160661 / 2 ^ 54) = 6004799503160661 / 2 ^ 54"
    by (subst double_round_eval[of "- 2"]) (simp_all add: pow2_def roundHalfEven_def)
  show "double_round (- (6004799503160661 / 2 ^ 54)) = - (6004799503160661 / 2 ^ 54)"
    by (subst double_round_eval[of "- 2"]) (simp_all add: pow2_def roundHalfEven_def)
  show "double_round (- 1 + 6004799503160661 / 2 ^ 54) = - (6004799503160662 / 2 ^ 53)"
    by (subst double_round_eval[of "- 1"]) (simp_all add: pow2_def roundHalfEven_def)
qed

lemma edgeIndices_nth:
  assumes "1 \<le> i" "i < nat N"
  shows "edgeIndices i0 i1 N len ! i = Some (len + (i - 1))"
proof -
  obtain i' where i': "i = Suc i'" using assms(1) by (cases i) auto
  then have "i' < nat N - 1" using assms(2) by simp
  then show ?thesis by (simp add: edgeIndices_def i' nth_append)
qed

lemma edgeIndices_nth_last: "1 \<le> N \<Longrightarrow> edgeIndices i0 i1 N len ! nat N = Some i1"
proof -
  assume "1 \<le> N"
  then obtain n' where n': "nat N = Suc n'" by (cases "nat N") auto
  show ?thesis
    using nth_append_length[of "map Some [len..<len + n']" "Some i1" "[]"]
    by (simp add: edgeIndices_def n')
qed

lemma rounded_first_point:
  "add_rounded double_round \<lparr>x = - 1, y = 0, z = - 1\<rparr>
     (multiplyByScalar_rounded double_round
        (subtract_rounded double_round \<lparr>x = 0, y = - 1, z = - 1\<rparr> \<lparr>x = - 1, y = 0, z = - 1\<rparr>)
        (double_round (real 1 / real_of_int 3)))
   = \<lparr>x = - (6004799503160662 / 2 ^ 53), y = - (6004799503160661 / 2 ^ 54), z = - 1\<rparr>"
proof -
  define d :: real where "d = 6004799503160661 / 2 ^ 54"
  have delta: "double_round (real 1 / real_of_int 3) = d"
    using double_round_values(4) by (simp add: d_def)
  have keep: "double_round d = d" "double_round (- d) = - d"
    unfolding d_def by (rule double_round_values)+
  have sum: "double_round (- 1 + d) = - (6004799503160662 / 2 ^ 53)"
    unfolding d_def by (rule double_round_values)
  have direction:
    "subtract_rounded double_round \<lparr>x = 0, y = - 1, z = - 1\<rparr> \<lparr>x = - 1, y = 0, z = - 1\<rparr>
     = \<lparr>x = 1, y = - 1, z = 0\<rparr>"
    by (simp add: subtract_rounded_def double_round_values(1-3))
  have scaled: "multiplyByScalar_rounded double_round \<lparr>x = 1, y = - 1, z = 0\<rparr> d
                = \<lparr>x = d, y = - d, z = 0\<rparr>"
    by (simp add: multiplyByScalar_rounded_def keep double_round_values(1))
  have "add_rounded double_round \<lparr>x = - 1, y = 0, z = - 1\<rparr> \<lparr>x = d, y = - d, z = 0\<rparr>
        = \<lparr>x = - (6004799503160662 / 2 ^ 53), y = - d, z = - 1\<rparr>"
    using sum by (simp add: add_rounded_def keep double_round_values(3))
  then show ?thesis unfolding delta direction scaled unfolding d_def .
qed

text \<open>
  C6, as the claim states it, fails: the source computes in double precision. On the edge
  from corner \<open>(-1, 0, -1)\<close> to corner \<open>(0, -1, -1)\<close> with three partitions, the first new
  position is \<open>(-6004799503160662 / 2\<^sup>5\<^sup>3, -6004799503160661 / 2\<^sup>5\<^sup>4, -1)\<close>, printed
  \<open>(-0.6666666666666667, -0.3333333333333333, -1)\<close>. Its \<open>x\<close> and \<open>y\<close> add up to
  \<open>-1 - 2\<^sup>-\<^sup>5\<^sup>4\<close>, so it is no point \<open>p0 + (p1 - p0) t\<close> of the straight line through the
  corners, for \<open>t = 1 / 3\<close> or any other \<open>t\<close>.
\<close>

theorem addEdgePositions_on_the_line_counterexample:
  "\<not> (\<exists>e ps'.
         addEdgePositions_rounded double_round 0 1 3
           [\<lparr>x = - 1, y = 0, z = - 1\<rparr>, \<lparr>x = 0, y = - 1, z = - 1\<rparr>] = Inr (e, ps')
         \<and> (\<exists>t. ps' ! 2 = add \<lparr>x = - 1, y = 0, z = - 1\<rparr>
                              (multiplyByScalar
                                 (subtract \<lparr>x = 0, y = - 1, z = - 1\<rparr> \<lparr>x = - 1, y = 0, z = - 1\<rparr>) t)))"
proof
  define ps where "ps = [\<lparr>x = - 1, y = 0, z = - 1\<rparr>, \<lparr>x = 0, y = - 1, z = - (1::real)\<rparr>]"
  assume "\<exists>e ps'.
         addEdgePositions_rounded double_round 0 1 3
           [\<lparr>x = - 1, y = 0, z = - 1\<rparr>, \<lparr>x = 0, y = - 1, z = - 1\<rparr>] = Inr (e, ps')
         \<and> (\<exists>t. ps' ! 2 = add \<lparr>x = - 1, y = 0, z = - 1\<rparr>
                              (multiplyByScalar
                                 (subtract \<lparr>x = 0, y = - 1, z = - 1\<rparr> \<lparr>x = - 1, y = 0, z = - 1\<rparr>) t))"
  then obtain e ps' t where r: "addEdgePositions_rounded double_round 0 1 3 ps = Inr (e, ps')"
      "ps' ! 2 = add \<lparr>x = - 1, y = 0, z = - 1\<rparr>
                   (multiplyByScalar
                      (subtract \<lparr>x = 0, y = - 1, z = - 1\<rparr> \<lparr>x = - 1, y = 0, z = - 1\<rparr>) t)"
    unfolding ps_def by blast
  have closed: "addEdgePositions_rounded double_round 0 1 3 ps
      = Inr (edgeIndices 0 1 3 (length ps),
             ps @ edgePoints_rounded double_round (ps ! 0) (ps ! 1) 3)"
    by (rule addEdgePositions_rounded_closed) (simp_all add: ps_def)
  have "(ps @ edgePoints_rounded double_round (ps ! 0) (ps ! 1) 3) ! (length ps + (1 - 1))
        = add_rounded double_round (ps ! 0)
            (multiplyByScalar_rounded double_round (subtract_rounded double_round (ps ! 1) (ps ! 0))
               (double_round (real 1 / real_of_int 3)))"
    by (rule edgePoints_rounded_nth) simp_all
  then have "ps' ! 2 = \<lparr>x = - (6004799503160662 / 2 ^ 53), y = - (6004799503160661 / 2 ^ 54), z = - 1\<rparr>"
    using r(1) closed rounded_first_point by (simp add: ps_def)
  then have "x (ps' ! 2) + y (ps' ! 2) = - 1 - 1 / 2 ^ 54" by simp
  moreover have "x (ps' ! 2) + y (ps' ! 2) = - 1"
    unfolding r(2) by (simp add: add_def multiplyByScalar_def subtract_def)
  ultimately show False by simp
qed

text \<open>
  C6, amended. A call of \<^verbatim>\<open>addEdgePositions\<close> with start and end indices inside the
  position buffer and a partition count \<open>N \<ge> 1\<close> returns a list of \<open>N + 1\<close> indices that
  begins with the start index and ends with the end index. The buffer grows by exactly
  \<open>N - 1\<close> entries, and the entry at place \<open>i\<close> of the list, for \<open>1 \<le> i \<le> N - 1\<close>, is the
  index of a new position: the value of
  \<open>positions[i0] + (positions[i1] - positions[i0]) \<sq> (i / N)\<close> as the source computes it,
  with the result of the subtraction, of the division, of the multiplication and of the
  addition each rounded. This holds for any rounding, that of double precision among
  them; where no operation rounds, the position is the exact value of the expression, a
  point of the straight line through the two corners.
\<close>

theorem addEdgePositions_interpolates_rounded:
  assumes "1 \<le> N" "i0 < length ps" "i1 < length ps"
  shows "\<exists>e ps'. addEdgePositions_rounded fl i0 i1 N ps = Inr (e, ps')
           \<and> length e = nat N + 1 \<and> e ! 0 = Some i0 \<and> e ! nat N = Some i1
           \<and> length ps' = length ps + (nat N - 1)
           \<and> (\<forall>i. 1 \<le> i \<and> i < nat N \<longrightarrow>
                  e ! i = Some (length ps + (i - 1))
                  \<and> length ps \<le> length ps + (i - 1) \<and> length ps + (i - 1) < length ps'
                  \<and> ps' ! (length ps + (i - 1))
                      = add_rounded fl (ps ! i0)
                          (multiplyByScalar_rounded fl (subtract_rounded fl (ps ! i1) (ps ! i0))
                             (fl (real i / real_of_int N)))
                  \<and> ((\<forall>v. fl v = v) \<longrightarrow>
                       ps' ! (length ps + (i - 1))
                         = add (ps ! i0)
                             (multiplyByScalar (subtract (ps ! i1) (ps ! i0))
                                (real i / real_of_int N))))"
proof -
  define E where "E = edgeIndices i0 i1 N (length ps)"
  define P where "P = ps @ edgePoints_rounded fl (ps ! i0) (ps ! i1) N"
  have run: "addEdgePositions_rounded fl i0 i1 N ps = Inr (E, P)"
    unfolding E_def P_def by (rule addEdgePositions_rounded_closed[OF assms])
  have len: "length E = nat N + 1"
    using assms(1) by (simp add: E_def interior_def)
  have first: "E ! 0 = Some i0"
    by (simp add: E_def edgeIndices_def)
  have last: "E ! nat N = Some i1"
    unfolding E_def by (rule edgeIndices_nth_last[OF assms(1)])
  have lenP: "length P = length ps + (nat N - 1)"
    by (simp add: P_def)
  have mid: "E ! i = Some (length ps + (i - 1))
             \<and> length ps \<le> length ps + (i - 1) \<and> length ps + (i - 1) < length P
             \<and> P ! (length ps + (i - 1))
                 = add_rounded fl (ps ! i0)
                     (multiplyByScalar_rounded fl (subtract_rounded fl (ps ! i1) (ps ! i0))
                        (fl (real i / real_of_int N)))
             \<and> ((\<forall>v. fl v = v) \<longrightarrow>
                  P ! (length ps + (i - 1))
                    = add (ps ! i0)
                        (multiplyByScalar (subtract (ps ! i1) (ps ! i0))
                           (real i / real_of_int N)))"
    if "1 \<le> i \<and> i < nat N" for i
  proof -
    have i: "1 \<le> i" "i < nat N" using that by simp_all
    have bound: "length ps + (i - 1) < length P" unfolding lenP using i by linarith
    have val: "P ! (length ps + (i - 1))
                 = add_rounded fl (ps ! i0)
                     (multiplyByScalar_rounded fl (subtract_rounded fl (ps ! i1) (ps ! i0))
                        (fl (real i / real_of_int N)))"
      unfolding P_def by (rule edgePoints_rounded_nth[OF i])
    have exact: "P ! (length ps + (i - 1))
                    = add (ps ! i0)
                        (multiplyByScalar (subtract (ps ! i1) (ps ! i0))
                           (real i / real_of_int N))"
      if "\<forall>v. fl v = v"
    proof -
      have "fl = (\<lambda>v. v)" using that by auto
      then show ?thesis using val by (simp add: rounded_identity)
    qed
    show ?thesis
      using bound val exact edgeIndices_nth[OF i, of i0 i1 "length ps"]
      unfolding E_def by simp
  qed
  show ?thesis using run len first last lenP mid by blast
qed

theorem addEdgePositions_interpolates_rounded_witness:
  "(1::int) \<le> 3
   \<and> (0::nat) < length [\<lparr>x = - 1, y = 0, z = - 1\<rparr>, \<lparr>x = 0, y = - 1, z = - 1\<rparr>]
   \<and> (1::nat) < length [\<lparr>x = - 1, y = 0, z = - 1\<rparr>, \<lparr>x = 0, y = - 1, z = - 1\<rparr>]
   \<and> (\<exists>e ps'. addEdgePositions_rounded double_round 0 1 3
                  [\<lparr>x = - 1, y = 0, z = - 1\<rparr>, \<lparr>x = 0, y = - 1, z = - 1\<rparr>] = Inr (e, ps')
         \<and> length e = 4 \<and> e ! 0 = Some 0 \<and> e ! 1 = Some 2 \<and> e ! 3 = Some 1
         \<and> length ps' = 4
         \<and> ps' ! 2 = \<lparr>x = - (6004799503160662 / 2 ^ 53), y = - (6004799503160661 / 2 ^ 54),
                       z = - 1\<rparr>)"
proof -
  define ps where "ps = [\<lparr>x = - 1, y = 0, z = - 1\<rparr>, \<lparr>x = 0, y = - 1, z = - (1::real)\<rparr>]"
  have h: "(1::int) \<le> 3" "0 < length ps" "1 < length ps" by (simp_all add: ps_def)
  obtain e ps' where r: "addEdgePositions_rounded double_round 0 1 3 ps = Inr (e, ps')"
      "length e = nat 3 + 1" "e ! 0 = Some 0" "e ! nat 3 = Some 1"
      "length ps' = length ps + (nat 3 - 1)"
      "\<forall>i. 1 \<le> i \<and> i < nat 3 \<longrightarrow>
                  e ! i = Some (length ps + (i - 1))
                  \<and> length ps \<le> length ps + (i - 1) \<and> length ps + (i - 1) < length ps'
                  \<and> ps' ! (length ps + (i - 1))
                      = add_rounded double_round (ps ! 0)
                          (multiplyByScalar_rounded double_round
                             (subtract_rounded double_round (ps ! 1) (ps ! 0))
                             (double_round (real i / real_of_int 3)))
                  \<and> ((\<forall>v. double_round v = v) \<longrightarrow>
                       ps' ! (length ps + (i - 1))
                         = add (ps ! 0)
                             (multiplyByScalar (subtract (ps ! 1) (ps ! 0))
                                (real i / real_of_int 3)))"
    using addEdgePositions_interpolates_rounded[OF h, of double_round] by blast
  from r(6)[rule_format, of 1] have "e ! 1 = Some (length ps + (1 - 1))
      \<and> ps' ! (length ps + (1 - 1))
          = add_rounded double_round (ps ! 0)
              (multiplyByScalar_rounded double_round
                 (subtract_rounded double_round (ps ! 1) (ps ! 0))
                 (double_round (real 1 / real_of_int 3)))"
    by simp
  then have "e ! 1 = Some 2"
      "ps' ! 2 = \<lparr>x = - (6004799503160662 / 2 ^ 53), y = - (6004799503160661 / 2 ^ 54), z = - 1\<rparr>"
    using rounded_first_point by (simp_all add: ps_def numeral_2_eq_2)
  then show ?thesis using r(1-5) h unfolding ps_def by auto
qed

text \<open>
  C7. A call of \<^verbatim>\<open>addFaceTriangles\<close> with \<open>N \<ge> 1\<close> whose three reads of the position
  buffer succeed appends to the index buffer, for each row \<open>j = 1..N\<close> in turn and each
  cell \<open>k = 0..N - 1\<close> of the row in turn, the two triangles
  \<open>(bottom[k], bottom[k+1], top[k+1])\<close> and \<open>(bottom[k], top[k+1], top[k])\<close>, and nothing
  else. Here \<open>bottom\<close> is row \<open>j - 1\<close> and \<open>top\<close> is row \<open>j\<close> of the grid of the face: row
  \<open>0\<close> is the bottom edge, row \<open>N\<close> is the top edge, and a row in between is the entry
  \<open>j\<close> of the left edge, the \<open>N - 1\<close> indices of the points the call adds for that row,
  and the entry \<open>j\<close> of the right edge.
\<close>

theorem addFaceTriangles_two_triangles_per_cell:
  assumes "1 \<le> N"
    and "js_get B 0 = Some a" "a < length ps"
    and "js_get B (int (length B) - 1) = Some b" "b < length ps"
    and "js_get T 0 = Some c" "c < length ps"
  shows "\<exists>ps'. addFaceTriangles L B R T N ps ix
           = Inr (ps', ix @ concat (map (\<lambda>j. concat (map (\<lambda>k.
               [js_get (faceGrid L B R T (nat N) (length ps) (j - 1)) (int k),
                js_get (faceGrid L B R T (nat N) (length ps) (j - 1)) (int k + 1),
                js_get (faceGrid L B R T (nat N) (length ps) j) (int k + 1),
                js_get (faceGrid L B R T (nat N) (length ps) (j - 1)) (int k),
                js_get (faceGrid L B R T (nat N) (length ps) j) (int k + 1),
                js_get (faceGrid L B R T (nat N) (length ps) j) (int k)])
               [0..<nat N])) [1..<Suc (nat N)]))"
proof -
  have n: "1 \<le> nat N" "int (nat N) = N" using assms(1) by simp_all
  from addFaceTriangles_frame_closed[OF n(1) assms(2-7), of L R ix]
  show ?thesis
    unfolding n(2) addFaceTriangles_def faceTriangles_def rowTriangles_def cellTriangles_def
    by auto
qed

theorem addFaceTriangles_two_triangles_per_cell_witness:
  "(1::int) \<le> 1
   \<and> js_get [Some 0, Some 1] 0 = Some (0::nat) \<and> (0::nat) < length cubeCorners
   \<and> js_get [Some 0, Some 1] (int (length [Some (0::nat), Some 1]) - 1) = Some (1::nat)
   \<and> (1::nat) < length cubeCorners
   \<and> js_get [Some 4, Some 5] 0 = Some (4::nat) \<and> (4::nat) < length cubeCorners
   \<and> (\<exists>ps'. addFaceTriangles [Some 0, Some 4] [Some 0, Some 1] [Some 1, Some 5] [Some 4, Some 5]
                 1 cubeCorners []
               = Inr (ps', [Some 0, Some 1, Some 5, Some 0, Some 5, Some 4]))"
proof -
  have h: "(1::int) \<le> 1"
    "js_get [Some 0, Some 1] 0 = Some (0::nat)" "(0::nat) < length cubeCorners"
    "js_get [Some 0, Some 1] (int (length [Some (0::nat), Some 1]) - 1) = Some (1::nat)"
    "(1::nat) < length cubeCorners"
    "js_get [Some 4, Some 5] 0 = Some (4::nat)" "(4::nat) < length cubeCorners"
    by (simp_all add: js_get_def)
  from addFaceTriangles_two_triangles_per_cell[OF h, of "[Some 0, Some 4]" "[Some 1, Some 5]" "[]"]
  have "\<exists>ps'. addFaceTriangles [Some 0, Some 4] [Some 0, Some 1] [Some 1, Some 5] [Some 4, Some 5]
                 1 cubeCorners []
               = Inr (ps', [Some 0, Some 1, Some 5, Some 0, Some 5, Some 4])"
    by (simp add: faceGrid_def js_get_def)
  then show ?thesis using h by blast
qed

text \<open>
  C9. A call of \<^verbatim>\<open>addEdgePositions\<close> or of \<^verbatim>\<open>addFaceTriangles\<close> that returns leaves the
  position buffer it was given as a prefix of the buffer afterwards: every index valid
  before the call holds the same position after it, and the call only appends. The four
  edge index lists passed to \<^verbatim>\<open>addFaceTriangles\<close> are the same after the call. This holds
  for any arguments, also outside the ones the constructor uses.
\<close>

theorem helpers_only_append:
  "(addEdgePositions i0 i1 N ps = Inr (e, ps') \<longrightarrow> (\<exists>new. ps' = ps @ new))
   \<and> (addFaceTriangles_frame L B R T M qs ix = Inr st \<longrightarrow>
        (\<exists>new. positions st = qs @ new)
        \<and> leftBottomToTop st = L \<and> bottomLeftToRight st = B
        \<and> rightBottomToTop st = R \<and> topLeftToRight st = T)"
  using addEdgePositions_appends addFaceTriangles_frame_extends by blast

theorem helpers_only_append_witness:
  "(\<exists>e ps'. addEdgePositions 0 1 2 cubeCorners = Inr (e, ps') \<and> (\<exists>new. ps' = cubeCorners @ new))
   \<and> (\<exists>st. addFaceTriangles_frame [Some 0, Some 4] [Some 0, Some 1] [Some 1, Some 5]
               [Some 4, Some 5] 1 cubeCorners [] = Inr st
          \<and> (\<exists>new. positions st = cubeCorners @ new)
          \<and> leftBottomToTop st = [Some 0, Some 4] \<and> bottomLeftToRight st = [Some 0, Some 1]
          \<and> rightBottomToTop st = [Some 1, Some 5] \<and> topLeftToRight st = [Some 4, Some 5])"
proof -
  obtain e ps' where e: "addEdgePositions 0 1 2 cubeCorners = Inr (e, ps')"
    using addEdgePositions_closed[of 2 0 cubeCorners 1] by simp
  have "\<exists>st. addFaceTriangles_frame [Some 0, Some 4] [Some 0, Some 1] [Some 1, Some 5]
               [Some 4, Some 5] (int 1) cubeCorners [] = Inr st"
    using addFaceTriangles_frame_closed[of 1 "[Some 0, Some 1]" 0 cubeCorners 1 "[Some 4, Some 5]" 4
        "[Some 0, Some 4]" "[Some 1, Some 5]" "[]"]
    by (simp add: js_get_def) blast
  then obtain st where st: "addFaceTriangles_frame [Some 0, Some 4] [Some 0, Some 1] [Some 1, Some 5]
               [Some 4, Some 5] 1 cubeCorners [] = Inr st" by auto
  show ?thesis
    using helpers_only_append[of 0 1 2 cubeCorners e ps' "[Some 0, Some 4]" "[Some 0, Some 1]"
        "[Some 1, Some 5]" "[Some 4, Some 5]" 1 cubeCorners "[]" st] e st
    by simp
qed

lemma cubePositions_one: "cubePositions 1 = cubeCorners"
  by (simp add: cubePositions_def cubeEdgePoints_def cubeFacePoints_def edgePoints_def
        facePoints_def)

lemma partitionCount_None: "partitionCount None = 32"
  by (simp add: partitionCount_def defaultValue_def EMPTY_OBJECT_def)

lemma chosenFormat_None: "chosenFormat None = DEFAULT"
  by (simp add: chosenFormat_def defaultValue_def EMPTY_OBJECT_def)

text \<open>
  C1, as the claim states it, fails. With the default vertex format (positions and
  normals), one partition and an ellipsoid of radii \<open>(1, 1, 2)\<close>, the normal attribute is
  not the geodetic surface normal of the cube-space positions: the projection loop has
  overwritten every slot of the position buffer before the normal loop reads it.
\<close>

theorem normals_of_cube_positions_counterexample:
  "\<not> (\<exists>g ps cube ix.
         EllipsoidGeometry_run
           (Some \<lparr>ellipsoid = Some squashed, numberOfPartitions = Some 1, vertexFormat = None\<rparr>)
           = Inr (g, ps)
         \<and> cubeTopology 1 = Inr (cube, ix)
         \<and> attributes g ''normal'' = Some (flatten (map (geodeticSurfaceNormal squashed) cube)))"
proof
  define opts where
    "opts = Some \<lparr>ellipsoid = Some squashed, numberOfPartitions = Some 1, vertexFormat = None\<rparr>"
  assume "\<exists>g ps cube ix.
         EllipsoidGeometry_run
           (Some \<lparr>ellipsoid = Some squashed, numberOfPartitions = Some 1, vertexFormat = None\<rparr>)
           = Inr (g, ps)
         \<and> cubeTopology 1 = Inr (cube, ix)
         \<and> attributes g ''normal'' = Some (flatten (map (geodeticSurfaceNormal squashed) cube))"
  then obtain g ps cube ix where a: "EllipsoidGeometry_run opts = Inr (g, ps)"
      "cubeTopology 1 = Inr (cube, ix)"
      "attributes g ''normal'' = Some (flatten (map (geodeticSurfaceNormal squashed) cube))"
    unfolding opts_def by blast
  have n: "partitionCount opts = 1" "chosenEllipsoid opts = squashed" "chosenFormat opts = DEFAULT"
    by (simp_all add: opts_def partitionCount_def chosenEllipsoid_def chosenFormat_def
          defaultValue_def)
  have cube: "cube = cubeCorners"
    using a(2) cubeTopology_closed[of 1] by (simp add: cubePositions_one)
  have "attributes g ''normal''
        = Some (flatten (map (geodeticSurfaceNormal squashed)
                          (map (project (getRadii squashed)) cubeCorners)))"
    using a(1) EllipsoidGeometry_run_closed[of opts]
    by (auto simp: n finalAttributes_def finalPositions_def DEFAULT_def cubePositions_one)
  then have "flatten (map (geodeticSurfaceNormal squashed)
                          (map (project (getRadii squashed)) cubeCorners))
             = flatten (map (geodeticSurfaceNormal squashed) cubeCorners)"
    using a(3) cube by simp
  then have "x (geodeticSurfaceNormal squashed (project (getRadii squashed) \<lparr>x = -1, y = 0, z = -1\<rparr>))
             = x (geodeticSurfaceNormal squashed \<lparr>x = -1, y = 0, z = -1\<rparr>)"
    by (simp add: flatten_def cubeCorners_def)
  then show False using normals_differ by contradiction
qed

text \<open>
  C1, amended. When the normal attribute is requested and the partition count is at
  least one, each output normal is the ellipsoid's geodetic surface normal of the vertex
  as the position buffer holds it when the normal loop runs: the cube-space position
  when the position attribute is not requested, and the projected position (normalized,
  then multiplied component-wise by the radii) when it is.
\<close>

theorem normals_of_buffer_positions:
  assumes "normal (chosenFormat opts)" "1 \<le> partitionCount opts"
  shows "\<exists>g ps cube ix.
           EllipsoidGeometry_run opts = Inr (g, ps)
           \<and> cubeTopology (partitionCount opts) = Inr (cube, ix)
           \<and> attributes g ''normal''
               = Some (flatten (map (geodeticSurfaceNormal (chosenEllipsoid opts))
                    (if position (chosenFormat opts)
                     then map (project (getRadii (chosenEllipsoid opts))) cube
                     else cube)))"
  unfolding EllipsoidGeometry_run_closed[OF assms(2)] cubeTopology_closed[OF assms(2)]
  using assms(1) by (simp add: finalAttributes_def finalPositions_def)

theorem normals_of_buffer_positions_witness:
  "normal (chosenFormat None) \<and> 1 \<le> partitionCount None
   \<and> (\<exists>g ps cube ix.
           EllipsoidGeometry_run None = Inr (g, ps)
           \<and> cubeTopology 32 = Inr (cube, ix)
           \<and> attributes g ''normal''
               = Some (flatten (map (geodeticSurfaceNormal UNIT_SPHERE)
                    (map (project (getRadii UNIT_SPHERE)) cube))))"
proof -
  have h: "normal (chosenFormat None)" "1 \<le> partitionCount None"
    by (simp_all add: chosenFormat_None partitionCount_None DEFAULT_def)
  have e: "chosenEllipsoid None = UNIT_SPHERE" "position (chosenFormat None)"
    by (simp_all add: chosenEllipsoid_def chosenFormat_None defaultValue_def EMPTY_OBJECT_def
          DEFAULT_def)
  show ?thesis
    using normals_of_buffer_positions[OF h] h by (simp add: e partitionCount_None)
qed

text \<open>
  C2. For every partition count \<open>N \<ge> 1\<close> the constructor ends with a position buffer of
  exactly \<open>8 + 12 (N - 1) + 6 (N - 1)\<^sup>2\<close> entries, which is also the length of the buffer
  when the cube topology is complete.
\<close>

theorem position_count:
  assumes "1 \<le> partitionCount opts"
  shows "\<exists>g ps cube ix.
           EllipsoidGeometry_run opts = Inr (g, ps)
           \<and> cubeTopology (partitionCount opts) = Inr (cube, ix)
           \<and> int (length cube) = 8 + 12 * (partitionCount opts - 1) + 6 * (partitionCount opts - 1)\<^sup>2
           \<and> int (length ps) = 8 + 12 * (partitionCount opts - 1) + 6 * (partitionCount opts - 1)\<^sup>2"
proof -
  have "int (length (cubePositions (partitionCount opts)))
        = 8 + 12 * (partitionCount opts - 1) + 6 * (partitionCount opts - 1)\<^sup>2"
    by (simp add: length_cubePositions int_interior[OF assms] power2_eq_square)
  then show ?thesis
    unfolding EllipsoidGeometry_run_closed[OF assms] cubeTopology_closed[OF assms]
    by (simp add: length_finalPositions)
qed

theorem position_count_witness:
  "1 \<le> partitionCount None
   \<and> (\<exists>g ps cube ix.
           EllipsoidGeometry_run None = Inr (g, ps)
           \<and> cubeTopology 32 = Inr (cube, ix)
           \<and> int (length cube) = 6146 \<and> int (length ps) = 6146)"
proof -
  have h: "1 \<le> partitionCount None" by (simp add: partitionCount_None)
  show ?thesis using position_count[OF h] h by (simp add: partitionCount_None)
qed

text \<open>
  C3. For every partition count \<open>N \<ge> 1\<close> the index list of the geometry has exactly
  \<open>36 N\<^sup>2\<close> entries, three for each of \<open>12 N\<^sup>2\<close> triangles.
\<close>

theorem triangle_count:
  assumes "1 \<le> partitionCount opts"
  shows "\<exists>g ps ix.
           EllipsoidGeometry_run opts = Inr (g, ps)
           \<and> indexLists g = [ix]
           \<and> int (length ix) = 36 * (partitionCount opts)\<^sup>2
           \<and> int (length ix) = 3 * (12 * (partitionCount opts)\<^sup>2)"
proof -
  have "int (nat (partitionCount opts)) = partitionCount opts" using assms by simp
  then have "int (length (cubeIndices (partitionCount opts))) = 36 * (partitionCount opts)\<^sup>2"
    unfolding length_cubeIndices by (simp add: power2_eq_square)
  then show ?thesis
    unfolding EllipsoidGeometry_run_closed[OF assms] by simp
qed

theorem triangle_count_witness:
  "1 \<le> partitionCount None
   \<and> (\<exists>g ps ix. EllipsoidGeometry_run None = Inr (g, ps) \<and> indexLists g = [ix]
         \<and> int (length ix) = 36864 \<and> int (length ix) = 3 * 12288)"
proof -
  have h: "1 \<le> partitionCount None" by (simp add: partitionCount_None)
  show ?thesis using triangle_count[OF h] h by (simp add: partitionCount_None)
qed

text \<open>
  C5. When the partition count is zero or negative the constructor throws the
  \<^verbatim>\<open>DeveloperError\<close>, and there is no geometry and no buffer; the test comes before the
  position and index buffers are created. When the partition count is positive the
  constructor returns a geometry, so this error, or any other, is not thrown.
\<close>

theorem invalid_partition_count:
  "(partitionCount opts \<le> 0 \<longrightarrow>
      EllipsoidGeometry opts = Inl DeveloperError
      \<and> EllipsoidGeometry_run opts = Inl DeveloperError)
   \<and> (0 < partitionCount opts \<longrightarrow> (\<exists>g. EllipsoidGeometry opts = Inr g))"
proof (intro conjI impI)
  assume "partitionCount opts \<le> 0"
  then show "EllipsoidGeometry opts = Inl DeveloperError"
    by (simp add: EllipsoidGeometry_def EllipsoidGeometry_run_invalid)
next
  assume "partitionCount opts \<le> 0"
  then show "EllipsoidGeometry_run opts = Inl DeveloperError"
    by (rule EllipsoidGeometry_run_invalid)
next
  assume "0 < partitionCount opts"
  then have "1 \<le> partitionCount opts" by simp
  then show "\<exists>g. EllipsoidGeometry opts = Inr g"
    by (simp add: EllipsoidGeometry_def EllipsoidGeometry_run_closed)
qed

theorem invalid_partition_count_witness:
  "EllipsoidGeometry
     (Some \<lparr>ellipsoid = None, numberOfPartitions = Some 0, vertexFormat = None\<rparr>)
     = Inl DeveloperError
   \<and> EllipsoidGeometry
     (Some \<lparr>ellipsoid = None, numberOfPartitions = Some (- 3), vertexFormat = None\<rparr>)
     = Inl DeveloperError
   \<and> (\<exists>g. EllipsoidGeometry None = Inr g)"
proof -
  have "partitionCount (Some \<lparr>ellipsoid = None, numberOfPartitions = Some 0, vertexFormat = None\<rparr>) \<le> 0"
    "partitionCount (Some \<lparr>ellipsoid = None, numberOfPartitions = Some (- 3), vertexFormat = None\<rparr>) \<le> 0"
    "0 < partitionCount None"
    by (simp_all add: partitionCount_def defaultValue_def EMPTY_OBJECT_def)
  then show ?thesis
    using invalid_partition_count[of "Some \<lparr>ellipsoid = None, numberOfPartitions = Some 0, vertexFormat = None\<rparr>"]
      invalid_partition_count[of "Some \<lparr>ellipsoid = None, numberOfPartitions = Some (- 3), vertexFormat = None\<rparr>"]
      invalid_partition_count[of None]
    by blast
qed

text \<open>
  C10. When the position attribute is not requested and the partition count is at least
  one, the position buffer at the end of the constructor is the cube-space buffer of the
  topology, unchanged; the geometry has no position attribute; and the normal
  attribute, when requested, holds the geodetic surface normals of these cube-space
  positions.
\<close>

theorem no_projection_without_positions:
  assumes "\<not> position (chosenFormat opts)" "1 \<le> partitionCount opts"
  shows "\<exists>g ps ix.
           EllipsoidGeometry_run opts = Inr (g, ps)
           \<and> cubeTopology (partitionCount opts) = Inr (ps, ix)
           \<and> attributes g ''position'' = None
           \<and> (if normal (chosenFormat opts)
              then attributes g ''normal''
                   = Some (flatten (map (geodeticSurfaceNormal (chosenEllipsoid opts)) ps))
              else attributes g ''normal'' = None)"
  unfolding EllipsoidGeometry_run_closed[OF assms(2)] cubeTopology_closed[OF assms(2)]
  using assms(1) by (simp add: finalAttributes_def finalPositions_def)

theorem no_projection_without_positions_witness:
  "\<not> position (chosenFormat (Some \<lparr>ellipsoid = Some squashed, numberOfPartitions = Some 2,
                                    vertexFormat = Some \<lparr>position = False, normal = True\<rparr>\<rparr>))
   \<and> 1 \<le> partitionCount (Some \<lparr>ellipsoid = Some squashed, numberOfPartitions = Some 2,
                                vertexFormat = Some \<lparr>position = False, normal = True\<rparr>\<rparr>)
   \<and> (\<exists>g ps ix.
         EllipsoidGeometry_run (Some \<lparr>ellipsoid = Some squashed, numberOfPartitions = Some 2,
                                      vertexFormat = Some \<lparr>position = False, normal = True\<rparr>\<rparr>)
           = Inr (g, ps)
         \<and> cubeTopology 2 = Inr (ps, ix)
         \<and> attributes g ''position'' = None
         \<and> attributes g ''normal'' = Some (flatten (map (geodeticSurfaceNormal squashed) ps)))"
proof -
  define opts where "opts = Some \<lparr>ellipsoid = Some squashed, numberOfPartitions = Some 2,
                                   vertexFormat = Some \<lparr>position = False, normal = True\<rparr>\<rparr>"
  have v: "chosenFormat opts = \<lparr>position = False, normal = True\<rparr>" "partitionCount opts = 2"
      "chosenEllipsoid opts = squashed"
    by (simp_all add: opts_def chosenFormat_def partitionCount_def chosenEllipsoid_def
          defaultValue_def)
  have h: "\<not> position (chosenFormat opts)" "1 \<le> partitionCount opts" by (simp_all add: v)
  show ?thesis
    using no_projection_without_positions[OF h] h unfolding v by (simp add: opts_def[symmetric] v)
qed



text \<open>
  C8. For every partition count \<open>N \<ge> 1\<close> the eighteen calls return without an exception:
  each read of the position buffer in \<^verbatim>\<open>addEdgePositions\<close> and \<^verbatim>\<open>addFaceTriangles\<close> is at
  an index inside the buffer (a read outside it gives \<^verbatim>\<open>undefined\<close>, and the call throws).
  Every entry of the final index buffer is a number below the final position count; no
  entry is \<^verbatim>\<open>undefined\<close>, which a read outside an index array would have produced. The
  index buffer is made, face by face and row by row, of the rows \<open>cubeRow N f j\<close>, and
  every index of row \<open>j\<close> of face \<open>f\<close> is below \<open>positionsAfterRow N f j\<close>, the number of
  positions in the buffer when the cells of that row are pushed.
\<close>

theorem indices_within_bounds:
  assumes "1 \<le> N"
  shows "\<exists>ps ix.
           cubeTopology N = Inr (ps, ix)
           \<and> (\<forall>i\<in>set ix. \<exists>k<length ps. i = Some k)
           \<and> ix = concat (map (\<lambda>f. concat (map (cubeRow N f) [1..<Suc (nat N)])) [0..<6])
           \<and> (\<forall>f j. f < 6 \<and> 1 \<le> j \<and> j \<le> nat N \<longrightarrow>
                  positionsAfterRow N f j \<le> length ps
                  \<and> (\<forall>i\<in>set (cubeRow N f j). \<exists>k<positionsAfterRow N f j. i = Some k))"
  unfolding cubeTopology_closed[OF assms]
  using cubeIndices_valid[OF assms] cubeIndices_rows[of N] cubeRow_valid[OF assms]
    positionsAfterRow_le[of _ N]
  by blast

theorem indices_within_bounds_witness:
  "(1::int) \<le> 3
   \<and> (\<exists>ps ix.
           cubeTopology 3 = Inr (ps, ix)
           \<and> (\<forall>i\<in>set ix. \<exists>k<length ps. i = Some k)
           \<and> ix = concat (map (\<lambda>f. concat (map (cubeRow 3 f) [1..<Suc (nat 3)])) [0..<6])
           \<and> positionsAfterRow 3 0 1 \<le> length ps
           \<and> (\<forall>i\<in>set (cubeRow 3 0 1). \<exists>k<positionsAfterRow 3 0 1. i = Some k))"
proof -
  have h: "(1::int) \<le> 3" by simp
  obtain ps ix where r: "cubeTopology 3 = Inr (ps, ix)"
      "\<forall>i\<in>set ix. \<exists>k<length ps. i = Some k"
      "ix = concat (map (\<lambda>f. concat (map (cubeRow 3 f) [1..<Suc (nat 3)])) [0..<6])"
      "\<forall>f j. f < 6 \<and> 1 \<le> j \<and> j \<le> nat 3 \<longrightarrow>
                  positionsAfterRow 3 f j \<le> length ps
                  \<and> (\<forall>i\<in>set (cubeRow 3 f j). \<exists>k<positionsAfterRow 3 f j. i = Some k)"
    using indices_within_bounds[OF h] by blast
  have "(0::nat) < 6 \<and> (1::nat) \<le> 1 \<and> 1 \<le> nat 3" by simp
  then have "positionsAfterRow 3 0 1 \<le> length ps
             \<and> (\<forall>i\<in>set (cubeRow 3 0 1). \<exists>k<positionsAfterRow 3 0 1. i = Some k)"
    using r(4) by blast
  then show ?thesis using r(1-3) h by blast
qed

end
